theory Spec2Isabelle
  imports Main "HOL-Library.Word" "HOL-Library.Code_Target_Nat"
begin

unbundle bit_operations_syntax

section \<open>Bytes and hexadecimal helpers\<close>

text \<open>
  A C++ \<^verbatim>\<open>char\<close> is one byte. Strings are \<^typ>\<open>string\<close>; arithmetic on a
  character goes through its value as an unsigned 8-bit word
  (\<^verbatim>\<open>static_cast<uint8_t>(c)\<close>), and back.
\<close>

definition byte_of :: "char \<Rightarrow> 8 word" where
  "byte_of c = of_nat (of_char c)"

definition char_of_byte :: "8 word \<Rightarrow> char" where
  "char_of_byte b = char_of (unat b)"

text \<open>\<^verbatim>\<open>c ^ 0x20\<close> on a \<^verbatim>\<open>char\<close>.\<close>

definition xor20 :: "char \<Rightarrow> char" where
  "xor20 c = char_of_byte (byte_of c XOR 0x20)"

text \<open>The control characters of \<^verbatim>\<open>enum class GdbStubControl\<close>.\<close>

definition Ack :: char where "Ack = CHR ''+''"
definition Nack :: char where "Nack = CHR ''-''"
definition PacketStart :: char where "PacketStart = CHR ''$''"
definition PacketEnd :: char where "PacketEnd = CHR ''#''"
definition Interrupt :: char where "Interrupt = CHR 0x03"

definition kGdbReplyOK :: string where "kGdbReplyOK = ''OK''"
definition kGdbReplyError :: string where "kGdbReplyError = ''E01''"

text \<open>
  One lowercase hexadecimal digit, as both \<^verbatim>\<open>to_hexbyte\<close> and the
  \<^verbatim>\<open>{:x}\<close> formats write it.
\<close>

definition hex_digit :: "nat \<Rightarrow> char" where
  "hex_digit d = (if d > 9 then char_of (of_char (CHR ''a'') + d - 10)
                  else char_of (of_char (CHR ''0'') + d :: nat))"

text \<open>\<^verbatim>\<open>{:x}\<close>: the shortest lowercase hexadecimal numeral of a value.\<close>

fun hex_digits :: "nat \<Rightarrow> string" where
  "hex_digits n = (if n < 16 then [hex_digit n]
                   else hex_digits (n div 16) @ [hex_digit (n mod 16)])"

declare hex_digits.simps [simp del]

text \<open>Zero fill on the left up to a minimal width (\<^verbatim>\<open>{:08x}\<close>, \<^verbatim>\<open>setw/setfill\<close>).\<close>

definition pad_left :: "nat \<Rightarrow> char \<Rightarrow> string \<Rightarrow> string" where
  "pad_left w c s = replicate (w - length s) c @ s"

definition u64_to_padded_hex :: "64 word \<Rightarrow> string" where
  "u64_to_padded_hex v = pad_left 16 (CHR ''0'') (hex_digits (unat v))"

definition u32_to_padded_hex :: "32 word \<Rightarrow> string" where
  "u32_to_padded_hex v = pad_left 8 (CHR ''0'') (hex_digits (unat v))"

definition to_hexbyte :: "8 word \<Rightarrow> string" where
  "to_hexbyte i =
     (let i1 = i AND 0xF;
          i2 = drop_bit 4 i
      in [hex_digit (unat i2), hex_digit (unat i1)])"

text \<open>
  \<^verbatim>\<open>from_hexchar\<close>: the value of a hexadecimal digit, 0 for any other character.
\<close>

definition from_hexchar :: "char \<Rightarrow> 8 word" where
  "from_hexchar c =
     (let n = (of_char c :: nat) in
      if of_char (CHR ''0'') \<le> n \<and> n \<le> of_char (CHR ''9'') then of_nat (n - of_char (CHR ''0''))
      else if of_char (CHR ''a'') \<le> n \<and> n \<le> of_char (CHR ''f'') then of_nat (n - of_char (CHR ''a'') + 10)
      else if of_char (CHR ''A'') \<le> n \<and> n \<le> of_char (CHR ''F'') then of_nat (n - of_char (CHR ''A'') + 10)
      else 0)"

section \<open>The codec: parsing one packet\<close>

text \<open>
  Modelled from the spec: \<^verbatim>\<open>GDBCommand\<close> is declared in \<^verbatim>\<open>gdbstub.h\<close>, which is not
  part of the sources at hand: the command token, the rest of the body, and the
  checksum byte that was transmitted.
\<close>

record GDBCommand =
  cmd :: string
  data :: string
  checksum :: "8 word"

text \<open>A default-constructed \<^verbatim>\<open>GDBCommand command;\<close>.\<close>

definition empty_command :: GDBCommand where
  "empty_command = \<lparr>cmd = [], data = [], checksum = 0\<rparr>"

text \<open>
  The packet is read through \<^verbatim>\<open>buffer_index\<close>; the model keeps the unread
  suffix instead. \<^verbatim>\<open>ReadCharFromBuffer\<close> returns NUL at the end without
  advancing.
\<close>

definition ReadCharFromBuffer :: "string \<Rightarrow> char \<times> string" where
  "ReadCharFromBuffer buf = (case buf of [] \<Rightarrow> (CHR 0x00, []) | c # rest \<Rightarrow> (c, rest))"

definition ReadHexByteFromBuffer :: "string \<Rightarrow> 8 word" where
  "ReadHexByteFromBuffer buf =
     (case buf of
        high # low # rest \<Rightarrow> push_bit 4 (from_hexchar high) OR from_hexchar low
      | _ \<Rightarrow> 0)"

definition is_splitter :: "char \<Rightarrow> bool" where
  "is_splitter c \<longleftrightarrow> c = CHR '':'' \<or> c = CHR ''.'' \<or> c = CHR '';''"

text \<open>
  The \<^verbatim>\<open>while (true)\<close> loop of \<^verbatim>\<open>ParsePacket\<close>. Arguments: the unread suffix,
  \<^verbatim>\<open>cmd_part\<close>, the running checksum, and the command and data built so far.
  Result: the unread suffix after the loop, the checksum, the command and the data.
\<close>

fun parse_loop :: "string \<Rightarrow> bool \<Rightarrow> 8 word \<Rightarrow> string \<Rightarrow> string
                    \<Rightarrow> string \<times> 8 word \<times> string \<times> string" where
  "parse_loop [] cmd_part csum cmd_acc data_acc = ([], csum, cmd_acc, data_acc)"
| "parse_loop (c # rest) cmd_part csum cmd_acc data_acc =
     (if c = CHR 0x00 \<or> c = PacketEnd then (rest, csum, cmd_acc, data_acc)
      else
        let csum1 = csum + byte_of c;
            c' = (if c = CHR ''}'' then xor20 (fst (ReadCharFromBuffer rest)) else c);
            rest' = (if c = CHR ''}'' then tl rest else rest);
            csum2 = (if c = CHR ''}'' then csum1 + byte_of c' else csum1);
            cmd_part1 = (cmd_part \<and> \<not> is_splitter c')
        in if cmd_part1
           then parse_loop rest'
                  (\<not> (length (cmd_acc @ [c']) = 1 \<and> c' \<noteq> CHR ''q'' \<and> c' \<noteq> CHR ''v''))
                  csum2 (cmd_acc @ [c']) data_acc
           else parse_loop rest' False csum2 cmd_acc (data_acc @ [c']))"

definition parse_body :: "string \<Rightarrow> bool \<times> GDBCommand" where
  "parse_body buf =
     (case parse_loop buf True 0 [] [] of
        (rest, csum, c, d) \<Rightarrow>
          (ReadHexByteFromBuffer rest = csum,
           \<lparr>cmd = c, data = d, checksum = ReadHexByteFromBuffer rest\<rparr>))"

text \<open>
  \<^verbatim>\<open>ParsePacket(packet, out_cmd)\<close>: the flag returned and \<^verbatim>\<open>out_cmd\<close> afterwards.
\<close>

definition ParsePacket :: "string \<Rightarrow> GDBCommand \<Rightarrow> bool \<times> GDBCommand" where
  "ParsePacket packet out_cmd =
     (let (c, b1) = ReadCharFromBuffer packet in
      if c \<noteq> PacketStart then
        let (c2, b2) = (if c = Ack then ReadCharFromBuffer b1 else (c, b1));
            (c3, b3) = (if c2 = Ack then ReadCharFromBuffer b2 else (c2, b2))
        in if c3 = Interrupt then (True, \<lparr>cmd = [Interrupt], data = [], checksum = 0\<rparr>)
           else if c3 \<noteq> PacketStart then (False, out_cmd)
           else parse_body b3
      else parse_body b1)"

text \<open>
  \<^verbatim>\<open>SendPacket\<close>: the bytes put on the wire for a reply.
\<close>

definition SendPacket :: "string \<Rightarrow> string" where
  "SendPacket reply =
     (let csum = foldl (\<lambda>s c. s + byte_of c) 0 reply
      in [PacketStart] @ reply @ [PacketEnd]
         @ pad_left 2 (CHR ''0'') (hex_digits (unat (csum AND 0xff))))"

section \<open>The receive loop\<close>

text \<open>\<^verbatim>\<open>std::string::find(char)\<close>: the first position of a character, if any.\<close>

fun find_char :: "char \<Rightarrow> string \<Rightarrow> nat option" where
  "find_char c [] = None"
| "find_char c (x # xs) = (if x = c then Some 0 else map_option Suc (find_char c xs))"

text \<open>
  What \<^verbatim>\<open>ProcessIncomingData\<close> does with one extracted packet. The dispatcher
  \<^verbatim>\<open>HandleGDBCommand\<close> is the parameter \<open>h\<close>, acting on the stub state \<open>s\<close>;
  the result lists the \<^verbatim>\<open>Send\<close> calls in order.
\<close>

definition handle_packet ::
  "(GDBCommand \<Rightarrow> 's \<Rightarrow> string \<times> 's) \<Rightarrow> string \<Rightarrow> 's \<Rightarrow> string list \<times> 's" where
  "handle_packet h current_packet s =
     (case ParsePacket current_packet empty_command of
        (True, command) \<Rightarrow>
          (case h command s of (response, s') \<Rightarrow> ([[Ack], SendPacket response], s'))
      | (False, command) \<Rightarrow> ([[Nack]], s))"

text \<open>
  The \<^verbatim>\<open>while\<close> loop of \<^verbatim>\<open>ProcessIncomingData\<close>, from the flag
  \<^verbatim>\<open>isInterrupt\<close> and the receive buffer. Result: the sends, the receive buffer
  left, the stub state.
\<close>

function rx_loop ::
  "(GDBCommand \<Rightarrow> 's \<Rightarrow> string \<times> 's) \<Rightarrow> bool \<Rightarrow> string \<Rightarrow> 's \<Rightarrow> string list \<times> string \<times> 's" where
  "rx_loop h isInterrupt receive_buffer s =
     (if isInterrupt then
        (case handle_packet h [Interrupt] s of
           (out, s') \<Rightarrow>
             (case rx_loop h False [] s' of
                (out', buf', s'') \<Rightarrow> (out @ out', buf', s'')))
      else
        (case find_char PacketEnd receive_buffer of
           None \<Rightarrow> ([], receive_buffer, s)
         | Some packet_end \<Rightarrow>
             if packet_end + 2 < length receive_buffer then
               (case handle_packet h (take (packet_end + 3) receive_buffer) s of
                  (out, s') \<Rightarrow>
                    (case rx_loop h False (drop (packet_end + 3) receive_buffer) s' of
                       (out', buf', s'') \<Rightarrow> (out @ out', buf', s'')))
             else ([], receive_buffer, s)))"
  by pat_completeness auto
termination
  by (relation "measure (\<lambda>(h, i, buf, s). length buf + (if i then 1 else 0))") auto

declare rx_loop.simps [simp del]

text \<open>
  \<^verbatim>\<open>ProcessIncomingData\<close>. \<open>received\<close> is what \<^verbatim>\<open>Receive\<close> delivered (at most
  1024 bytes), empty when it returned 0 or -1. Result: the flag returned, the
  sends, the receive buffer, the stub state.
\<close>

definition ProcessIncomingData ::
  "(GDBCommand \<Rightarrow> 's \<Rightarrow> string \<times> 's) \<Rightarrow> string \<Rightarrow> string \<Rightarrow> 's
     \<Rightarrow> bool \<times> string list \<times> string \<times> 's" where
  "ProcessIncomingData h received receive_buffer s =
     (if received = [] then (False, [], receive_buffer, s)
      else
        let isInterrupt = (hd received = Interrupt \<and> length received = 1)
        in case rx_loop h isInterrupt (receive_buffer @ received) s of
             (out, buf', s') \<Rightarrow> (True, out, buf', s'))"

subsection \<open>The wire format in the words of the protocol\<close>

text \<open>
  The packets cut out of a buffer by the framing rule: up to the first \<open>#\<close> and
  the two bytes after it, repeatedly; with the bytes left over.
\<close>

function cut_packets :: "string \<Rightarrow> string list \<times> string" where
  "cut_packets buf =
     (case find_char PacketEnd buf of
        None \<Rightarrow> ([], buf)
      | Some e \<Rightarrow>
          if e + 2 < length buf
          then (case cut_packets (drop (e + 3) buf) of (ps, r) \<Rightarrow> (take (e + 3) buf # ps, r))
          else ([], buf))"
  by pat_completeness auto
termination
  by (relation "measure length") auto

declare cut_packets.simps [simp del]

text \<open>Handling a list of packets one after the other.\<close>

fun handle_packets ::
  "(GDBCommand \<Rightarrow> 's \<Rightarrow> string \<times> 's) \<Rightarrow> string list \<Rightarrow> 's \<Rightarrow> string list \<times> 's" where
  "handle_packets h [] s = ([], s)"
| "handle_packets h (p # ps) s =
     (case handle_packet h p s of
        (out, s') \<Rightarrow> (case handle_packets h ps s' of (out', s'') \<Rightarrow> (out @ out', s'')))"

text \<open>
  A body as it travels: no NUL and no \<open>#\<close> outside an escape, and every \<open>}\<close>
  followed by the byte it escapes.
\<close>

fun wire_ok :: "string \<Rightarrow> bool" where
  "wire_ok [] = True"
| "wire_ok [c] = (c \<noteq> CHR 0x00 \<and> c \<noteq> CHR ''#'' \<and> c \<noteq> CHR ''}'')"
| "wire_ok (c # n # r) =
     (if c = CHR ''}'' then wire_ok r
      else c \<noteq> CHR 0x00 \<and> c \<noteq> CHR ''#'' \<and> wire_ok (n # r))"

text \<open>The logical bytes of a body: \<open>}\<close> followed by \<open>n\<close> stands for \<open>n XOR 0x20\<close>.\<close>

fun unescape :: "string \<Rightarrow> string" where
  "unescape [] = []"
| "unescape [c] = [c]"
| "unescape (c # n # r) =
     (if c = CHR ''}'' then xor20 n # unescape r else c # unescape (n # r))"

text \<open>
  The checksum as the receiver is described to compute it: the 8-bit sum of the
  body bytes, where an escape contributes the \<open>}\<close> and the byte after XOR.
\<close>

fun rx_sum :: "string \<Rightarrow> 8 word" where
  "rx_sum [] = 0"
| "rx_sum [c] = byte_of c"
| "rx_sum (c # n # r) =
     (if c = CHR ''}'' then byte_of c + byte_of (xor20 n) + rx_sum r
      else byte_of c + rx_sum (n # r))"

text \<open>The 8-bit sum of the bytes as they are on the wire.\<close>

definition wire_sum :: "string \<Rightarrow> 8 word" where
  "wire_sum w = foldl (\<lambda>s c. s + byte_of c) 0 w"

text \<open>
  The sending debugger: \<open>$\<close>, \<open>#\<close> and \<open>}\<close> are escaped as \<open>}\<close> followed by the
  byte XOR 0x20, and the checksum is the sum of the bytes on the wire.
\<close>

definition reserved :: "char \<Rightarrow> bool" where
  "reserved c \<longleftrightarrow> c = CHR ''$'' \<or> c = CHR ''#'' \<or> c = CHR ''}''"

fun escape_body :: "string \<Rightarrow> string" where
  "escape_body [] = []"
| "escape_body (c # cs) =
     (if reserved c then CHR ''}'' # xor20 c # escape_body cs else c # escape_body cs)"

definition encode_packet :: "string \<Rightarrow> string" where
  "encode_packet body =
     [PacketStart] @ escape_body body @ [PacketEnd] @ to_hexbyte (wire_sum (escape_body body))"

text \<open>The command and data of a logical body, as the splitting cuts it.\<close>

definition split_cmd :: "string \<Rightarrow> string" where
  "split_cmd body =
     (case body of
        [] \<Rightarrow> []
      | c # rest \<Rightarrow>
          if is_splitter c then []
          else if c = CHR ''q'' \<or> c = CHR ''v'' then c # takeWhile (\<lambda>x. \<not> is_splitter x) rest
          else [c])"

definition split_data :: "string \<Rightarrow> string" where
  "split_data body =
     (case body of
        [] \<Rightarrow> []
      | c # rest \<Rightarrow>
          if is_splitter c then body
          else if c = CHR ''q'' \<or> c = CHR ''v'' then dropWhile (\<lambda>x. \<not> is_splitter x) rest
          else rest)"

text \<open>The value of two hexadecimal digits, as \<^verbatim>\<open>ReadHexByteFromBuffer\<close> combines them.\<close>

definition hex_value :: "char \<Rightarrow> char \<Rightarrow> 8 word" where
  "hex_value h l = push_bit 4 (from_hexchar h) OR from_hexchar l"

text \<open>
  A packet that \<^verbatim>\<open>ParsePacket\<close> turns into the interrupt command without
  reading a checksum: \<open>\x03\<close> first, or after one or two \<open>+\<close>.
\<close>

definition is_interrupt_packet :: "string \<Rightarrow> bool" where
  "is_interrupt_packet p \<longleftrightarrow>
     take 1 p = [Interrupt] \<or> take 2 p = [Ack, Interrupt] \<or> take 3 p = [Ack, Ack, Interrupt]"

definition interrupt_command :: GDBCommand where
  "interrupt_command = \<lparr>cmd = [Interrupt], data = [], checksum = 0\<rparr>"

text \<open>A dispatcher that only records the commands it is given, with an empty reply.\<close>

definition log_command :: "GDBCommand \<Rightarrow> GDBCommand list \<Rightarrow> string \<times> GDBCommand list" where
  "log_command c log = ([], log @ [c])"

section \<open>Breakpoints\<close>

text \<open>
  Modelled from the spec: \<^verbatim>\<open>cpu::Breakpoint\<close> is declared in \<^verbatim>\<open>breakpoint.h\<close>, which
  is not part of the sources at hand. A breakpoint has the 64-bit address it was
  made for, whose low 32 bits are its \<^verbatim>\<open>guest_address()\<close>, and the host addresses
  the Processor has for it, which \<^verbatim>\<open>ForEachHostAddress\<close> enumerates and
  \<^verbatim>\<open>ContainsHostAddress\<close> searches. \<open>bp_handle\<close> stands for the address of the
  object: two live breakpoints are the same object exactly when their handles
  are equal.
\<close>

record Breakpoint =
  bp_handle :: nat
  bp_address :: "64 word"
  bp_host_addresses :: "64 word list"

definition guest_address :: "Breakpoint \<Rightarrow> 32 word" where
  "guest_address bp = ucast (bp_address bp)"

definition ContainsHostAddress :: "Breakpoint \<Rightarrow> 64 word \<Rightarrow> bool" where
  "ContainsHostAddress bp search_address = list_ex (\<lambda>a. a = search_address) (bp_host_addresses bp)"

text \<open>
  \<^verbatim>\<open>cache_.breakpoints\<close>: the breakpoints owned, and the map from guest address to
  breakpoint, an association list with one entry for a key.
\<close>

record BreakpointState =
  all_breakpoints :: "Breakpoint list"
  code_breakpoints_by_guest_address :: "(32 word \<times> Breakpoint) list"

text \<open>\<^verbatim>\<open>std::map\<close>: \<^verbatim>\<open>find\<close>, \<^verbatim>\<open>emplace\<close> (which keeps an entry already there), \<^verbatim>\<open>erase\<close>.\<close>

definition map_find :: "'k \<Rightarrow> ('k \<times> 'v) list \<Rightarrow> 'v option" where
  "map_find k m = map_of m k"

definition map_emplace :: "'k \<Rightarrow> 'v \<Rightarrow> ('k \<times> 'v) list \<Rightarrow> ('k \<times> 'v) list" where
  "map_emplace k v m = (if list_ex (\<lambda>e. fst e = k) m then m else m @ [(k, v)])"

definition map_erase :: "'k \<Rightarrow> ('k \<times> 'v) list \<Rightarrow> ('k \<times> 'v) list" where
  "map_erase k m = filter (\<lambda>e. fst e \<noteq> k) m"

section \<open>The session cache\<close>

text \<open>
  Modelled from the spec: the thread snapshots of the Processor
  (\<^verbatim>\<open>cpu::ThreadDebugInfo\<close>, \<^verbatim>\<open>PPCContext\<close>, \<^verbatim>\<open>StackFrame\<close>) are declared in headers
  that are not part of the sources at hand. A snapshot exposes a thread id, a
  name, a register context (\<open>r[0..31]\<close>, \<open>f[0..31]\<close>, \<open>lr\<close>, \<open>ctr\<close>, \<open>cr\<close>) and call
  frames with guest PCs. The registers are 64-bit values which the stub casts;
  a floating-point register stands for its 64-bit pattern.
\<close>

record PPCContext =
  ctx_r :: "nat \<Rightarrow> 64 word"
  ctx_f :: "nat \<Rightarrow> 64 word"
  ctx_lr :: "64 word"
  ctx_ctr :: "64 word"
  ctx_cr :: "64 word"

record StackFrame =
  guest_pc :: "64 word"

record ThreadDebugInfo =
  thread_id :: "32 word"
  thread_name :: string
  guest_context :: PPCContext
  frames :: "StackFrame list"

datatype ExecutionState = kRunning | kPaused | kEnded

text \<open>
  What the stub asks of the Processor and the kernel when it refreshes:
  \<^verbatim>\<open>execution_state()\<close>, \<^verbatim>\<open>QueryThreadDebugInfos()\<close> and the loaded modules
  (as object references).
\<close>

record Processor =
  execution_state :: ExecutionState
  QueryThreadDebugInfos :: "ThreadDebugInfo list"
  kernel_modules :: "nat list"

text \<open>
  Modelled from the spec: the cache \<^verbatim>\<open>cache_\<close> is declared in \<^verbatim>\<open>gdbstub.h\<close>, which
  is not part of the sources at hand. Thread ids are unsigned 32-bit and the
  breakpoint address unsigned 64-bit; \<open>-1\<close>, all bits set, stands for
  \<^emph>\<open>absent\<close> in each of them, as the comparisons with \<open>-1\<close> in the code read it.
\<close>

record Cache =
  is_stopped :: bool
  notify_stopped :: bool
  cur_thread_id :: "32 word"
  last_bp_thread_id :: "32 word"
  notify_bp_thread_id :: "32 word"
  notify_bp_guest_address :: "64 word"
  modules :: "nat list"
  thread_debug_infos :: "ThreadDebugInfo list"
  breakpoints :: BreakpointState

text \<open>
  Modelled from the spec: \<^verbatim>\<open>cache_.thread_info(id)\<close> is the snapshot with that id
  in the listing, or null; \<^verbatim>\<open>cur_thread_info()\<close> is the one of the current thread.
\<close>

definition thread_info :: "Cache \<Rightarrow> 32 word \<Rightarrow> ThreadDebugInfo option" where
  "thread_info c tid = find (\<lambda>t. thread_id t = tid) (thread_debug_infos c)"

definition cur_thread_info :: "Cache \<Rightarrow> ThreadDebugInfo option" where
  "cur_thread_info c = thread_info c (cur_thread_id c)"

text \<open>What goes wrong where C++ leaves the behaviour undefined.\<close>

datatype fault =
    IndexOutOfRange    \<comment> \<open>\<^verbatim>\<open>v[0]\<close> on an empty vector\<close>
  | NullThread         \<comment> \<open>a null \<^verbatim>\<open>ThreadDebugInfo*\<close> dereferenced\<close>
  | Uninitialized      \<comment> \<open>the result of a failed \<^verbatim>\<open>from_chars\<close> read\<close>

text \<open>\<^verbatim>\<open>UpdateCache\<close>.\<close>

definition UpdateCache :: "Processor \<Rightarrow> Cache \<Rightarrow> fault + Cache" where
  "UpdateCache processor c =
     (let c1 = c\<lparr>is_stopped := (execution_state processor \<noteq> kRunning)\<rparr>;
          c2 = c1\<lparr>notify_stopped := is_stopped c1\<rparr>
      in if \<not> is_stopped c2 then Inr c2
         else
           let c3 = c2\<lparr>modules := kernel_modules processor\<rparr>;
               c4 = c3\<lparr>thread_debug_infos := QueryThreadDebugInfos processor\<rparr>
           in case thread_debug_infos c4 of
                [] \<Rightarrow> Inl IndexOutOfRange
              | t # ts \<Rightarrow> Inr (c4\<lparr>cur_thread_id := thread_id t\<rparr>))"

text \<open>
  \<^verbatim>\<open>OnStepCompleted\<close> and \<^verbatim>\<open>OnBreakpointHit\<close>, from the id of the thread and the
  \<^verbatim>\<open>address()\<close> of the breakpoint.
\<close>

definition OnStepCompleted :: "32 word \<Rightarrow> Processor \<Rightarrow> Cache \<Rightarrow> fault + Cache" where
  "OnStepCompleted tid processor c =
     UpdateCache processor (c\<lparr>notify_bp_thread_id := tid, last_bp_thread_id := tid\<rparr>)"


section \<open>Reading registers\<close>

text \<open>
  The loop over \<^verbatim>\<open>thread->frames\<close>: the guest PC of the first frame that has
  one, cast to 32 bits and written in hexadecimal; zero if there is none.
\<close>

fun first_guest_pc :: "StackFrame list \<Rightarrow> string" where
  "first_guest_pc [] = u32_to_padded_hex 0"
| "first_guest_pc (frame # rest) =
     (if guest_pc frame \<noteq> 0 then u32_to_padded_hex (ucast (guest_pc frame))
      else first_guest_pc rest)"

text \<open>
  \<^verbatim>\<open>ReadRegister(thread, rid)\<close>: the encoding, and the cache afterwards (register 64
  consumes the address of the breakpoint just hit).
\<close>

definition ReadRegister ::
  "ThreadDebugInfo option \<Rightarrow> 32 word \<Rightarrow> Cache \<Rightarrow> fault + (string \<times> Cache)" where
  "ReadRegister thread rid c =
     (if rid = 64 then
        (if notify_bp_guest_address c \<noteq> - 1
         then Inr (u32_to_padded_hex (ucast (notify_bp_guest_address c)),
                   c\<lparr>notify_bp_guest_address := - 1\<rparr>)
         else case thread of
                None \<Rightarrow> Inl NullThread
              | Some t \<Rightarrow> Inr (first_guest_pc (frames t), c))
      else if rid = 65 then Inr (replicate 8 (CHR ''x''), c)
      else if rid = 66 then
        (case thread of
           None \<Rightarrow> Inl NullThread
         | Some t \<Rightarrow> Inr (u32_to_padded_hex (ucast (ctx_cr (guest_context t))), c))
      else if rid = 67 then
        (case thread of
           None \<Rightarrow> Inl NullThread
         | Some t \<Rightarrow> Inr (u32_to_padded_hex (ucast (ctx_lr (guest_context t))), c))
      else if rid = 68 then
        (case thread of
           None \<Rightarrow> Inl NullThread
         | Some t \<Rightarrow> Inr (u32_to_padded_hex (ucast (ctx_ctr (guest_context t))), c))
      else if rid = 69 then Inr (replicate 8 (CHR ''x''), c)
      else if rid = 70 then Inr (replicate 8 (CHR ''x''), c)
      else if rid > 70 then Inr ([], c)
      else
        (case thread of
           None \<Rightarrow> Inl NullThread
         | Some t \<Rightarrow>
             if rid > 31
             then Inr (u64_to_padded_hex (ctx_f (guest_context t) (unat (rid - 32))), c)
             else Inr (u32_to_padded_hex (ucast (ctx_r (guest_context t) (unat rid))), c)))"

text \<open>
  The loop of \<^verbatim>\<open>ReadRegisters\<close> over the register numbers still to read, with
  the result so far.
\<close>

fun read_registers_loop :: "nat list \<Rightarrow> string \<Rightarrow> Cache \<Rightarrow> fault + (string \<times> Cache)" where
  "read_registers_loop [] result c = Inr (result, c)"
| "read_registers_loop (i # rest) result c =
     (case ReadRegister (cur_thread_info c) (of_nat i) c of
        Inl e \<Rightarrow> Inl e
      | Inr (s, c') \<Rightarrow> read_registers_loop rest (result @ s) c')"

definition ReadRegisters :: "Cache \<Rightarrow> fault + (string \<times> Cache)" where
  "ReadRegisters c = read_registers_loop [0..<71] [] c"

text \<open>
  \<^verbatim>\<open>hex_to<T>\<close> by \<^verbatim>\<open>std::from_chars\<close> in base 16: the longest prefix of
  hexadecimal digits. With no digit, or a value that does not fit the type,
  \<^verbatim>\<open>from_chars\<close> leaves the result as it was, which is uninitialised: \<open>None\<close>.
\<close>

definition is_hex_digit :: "char \<Rightarrow> bool" where
  "is_hex_digit c \<longleftrightarrow>
     (let n = (of_char c :: nat) in
      (of_char (CHR ''0'') \<le> n \<and> n \<le> of_char (CHR ''9''))
      \<or> (of_char (CHR ''a'') \<le> n \<and> n \<le> of_char (CHR ''f''))
      \<or> (of_char (CHR ''A'') \<le> n \<and> n \<le> of_char (CHR ''F'')))"

definition hex_prefix_value :: "string \<Rightarrow> nat" where
  "hex_prefix_value s =
     foldl (\<lambda>a d. 16 * a + unat (from_hexchar d)) 0 (takeWhile is_hex_digit s)"

definition hex_to_u32 :: "string \<Rightarrow> 32 word option" where
  "hex_to_u32 val =
     (if takeWhile is_hex_digit val = [] then None
      else if hex_prefix_value val < 2 ^ 32 then Some (of_nat (hex_prefix_value val))
      else None)"

text \<open>\<^verbatim>\<open>ReadRegister(data)\<close>, the handler of \<open>p\<close>.\<close>

definition ReadRegister_data :: "string \<Rightarrow> Cache \<Rightarrow> fault + (string \<times> Cache)" where
  "ReadRegister_data d c =
     (case hex_to_u32 d of
        None \<Rightarrow> Inl Uninitialized
      | Some rid \<Rightarrow>
          (case ReadRegister (cur_thread_info c) rid c of
             Inl e \<Rightarrow> Inl e
           | Inr (result, c') \<Rightarrow>
               if result = [] then Inr (kGdbReplyError, c') else Inr (result, c')))"

section \<open>Stop replies\<close>




text \<open>
  Modelled from the spec: the cache of a new stub, nothing stopped, every
  one-shot field absent and no breakpoint.
\<close>

definition initial_cache :: Cache where
  "initial_cache =
     \<lparr>is_stopped = False, notify_stopped = False, cur_thread_id = - 1,
      last_bp_thread_id = - 1, notify_bp_thread_id = - 1, notify_bp_guest_address = - 1,
      modules = [], thread_debug_infos = [],
      breakpoints = \<lparr>all_breakpoints = [], code_breakpoints_by_guest_address = []\<rparr>\<rparr>"

text \<open>A small paused guest for the examples: threads 9 and 7, in this order.\<close>

definition example_context :: PPCContext where
  "example_context =
     \<lparr>ctx_r = (\<lambda>i. of_nat i), ctx_f = (\<lambda>i. 0), ctx_lr = 0x82000100, ctx_ctr = 0, ctx_cr = 0\<rparr>"

definition example_thread :: "32 word \<Rightarrow> ThreadDebugInfo" where
  "example_thread tid =
     \<lparr>thread_id = tid, thread_name = ''main'', guest_context = example_context,
      frames = [\<lparr>guest_pc = 0\<rparr>, \<lparr>guest_pc = 0x82001000\<rparr>]\<rparr>"

definition example_processor :: Processor where
  "example_processor =
     \<lparr>execution_state = kPaused,
      QueryThreadDebugInfos = [example_thread 9, example_thread 7],
      kernel_modules = []\<rparr>"

text \<open>The width of the encoding of register \<open>i\<close>, in characters.\<close>

definition register_width :: "nat \<Rightarrow> nat" where
  "register_width i = (if 32 \<le> i \<and> i < 64 then 16 else 8)"

section \<open>The breakpoint registry\<close>

text \<open>
  The calls the stub makes on the Processor, in order. What the Processor does
  with them is its own business.
\<close>

datatype processor_call =
    Pause
  | Continue
  | StepGuestInstruction "32 word"
  | AddBreakpoint nat
  | RemoveBreakpoint nat

text \<open>
  The stub: its cache, the calls made on the Processor so far, and the handle
  the next breakpoint object will get.
\<close>

record Stub =
  cache :: Cache
  processor_calls :: "processor_call list"
  next_handle :: nat

definition initial_stub :: Stub where
  "initial_stub = \<lparr>cache = initial_cache, processor_calls = [], next_handle = 0\<rparr>"

text \<open>
  The two nested loops of \<^verbatim>\<open>CreateCodeBreakpoint\<close> over the map and over the host
  addresses of the new breakpoint: \<open>True\<close> where the code returns \<open>false\<close>.
\<close>

fun collides :: "(32 word \<times> Breakpoint) list \<Rightarrow> Breakpoint \<Rightarrow> 64 word list \<Rightarrow> bool" where
  "collides [] breakpoint host_addresses = False"
| "collides (kvp # rest) breakpoint host_addresses =
     (if fst kvp = guest_address breakpoint then True
      else if list_ex (\<lambda>host_address. ContainsHostAddress (snd kvp) host_address) host_addresses
      then True
      else collides rest breakpoint host_addresses)"

text \<open>
  \<^verbatim>\<open>CreateCodeBreakpoint(address)\<close>. \<open>hosts\<close> is what the Processor has as host
  addresses for a breakpoint at this address when it is made.
\<close>

definition CreateCodeBreakpoint :: "64 word \<Rightarrow> 64 word list \<Rightarrow> Stub \<Rightarrow> bool \<times> Stub" where
  "CreateCodeBreakpoint addr hosts s =
     (let breakpoint = \<lparr>bp_handle = next_handle s, bp_address = addr, bp_host_addresses = hosts\<rparr>;
          s1 = s\<lparr>next_handle := Suc (next_handle s)\<rparr>;
          host_addresses = bp_host_addresses breakpoint;
          state = breakpoints (cache s1)
      in if collides (code_breakpoints_by_guest_address state) breakpoint host_addresses
         then (False, s1)
         else
           (True,
            s1\<lparr>cache := (cache s1)
                  \<lparr>breakpoints :=
                     \<lparr>all_breakpoints = all_breakpoints state @ [breakpoint],
                      code_breakpoints_by_guest_address =
                        map_emplace (guest_address breakpoint) breakpoint
                          (code_breakpoints_by_guest_address state)\<rparr>\<rparr>,
               processor_calls := processor_calls s1 @ [AddBreakpoint (bp_handle breakpoint)]\<rparr>))"

text \<open>\<^verbatim>\<open>vector::erase\<close> of the first breakpoint that is the given object.\<close>

fun erase_breakpoint :: "nat \<Rightarrow> Breakpoint list \<Rightarrow> Breakpoint list" where
  "erase_breakpoint h [] = []"
| "erase_breakpoint h (b # bs) = (if bp_handle b \<noteq> h then b # erase_breakpoint h bs else bs)"

text \<open>\<^verbatim>\<open>DeleteCodeBreakpoint(Breakpoint*)\<close>.\<close>

definition DeleteCodeBreakpoint_ptr :: "Breakpoint \<Rightarrow> Stub \<Rightarrow> Stub" where
  "DeleteCodeBreakpoint_ptr breakpoint s =
     (let state = breakpoints (cache s)
      in if list_ex (\<lambda>b. bp_handle b = bp_handle breakpoint) (all_breakpoints state)
         then
           s\<lparr>processor_calls := processor_calls s @ [RemoveBreakpoint (bp_handle breakpoint)],
             cache := (cache s)
               \<lparr>breakpoints :=
                  \<lparr>all_breakpoints = erase_breakpoint (bp_handle breakpoint) (all_breakpoints state),
                   code_breakpoints_by_guest_address =
                     map_erase (guest_address breakpoint)
                       (code_breakpoints_by_guest_address state)\<rparr>\<rparr>\<rparr>
         else s)"

definition LookupBreakpointAtAddress :: "64 word \<Rightarrow> Stub \<Rightarrow> Breakpoint option" where
  "LookupBreakpointAtAddress addr s =
     map_find (ucast addr :: 32 word) (code_breakpoints_by_guest_address (breakpoints (cache s)))"

text \<open>\<^verbatim>\<open>DeleteCodeBreakpoint(uint64_t)\<close>.\<close>

definition DeleteCodeBreakpoint :: "64 word \<Rightarrow> Stub \<Rightarrow> Stub" where
  "DeleteCodeBreakpoint addr s =
     (case LookupBreakpointAtAddress addr s of
        None \<Rightarrow> s
      | Some breakpoint \<Rightarrow> DeleteCodeBreakpoint_ptr breakpoint s)"

text \<open>
  The first part of \<^verbatim>\<open>DebuggerDetached\<close>: every breakpoint is taken from the
  Processor, then both containers are cleared.
\<close>

definition remove_all_breakpoints :: "Stub \<Rightarrow> Stub" where
  "remove_all_breakpoints s =
     s\<lparr>processor_calls :=
          processor_calls s
          @ map (\<lambda>b. RemoveBreakpoint (bp_handle b)) (all_breakpoints (breakpoints (cache s))),
       cache := (cache s)
         \<lparr>breakpoints := \<lparr>all_breakpoints = [], code_breakpoints_by_guest_address = []\<rparr>\<rparr>\<rparr>"

text \<open>The \<^verbatim>\<open>while\<close> loop of \<^verbatim>\<open>OnDetached\<close>: delete the front breakpoint until none is left.\<close>

function delete_front_breakpoints :: "Stub \<Rightarrow> Stub" where
  "delete_front_breakpoints s =
     (case all_breakpoints (breakpoints (cache s)) of
        [] \<Rightarrow> s
      | front # rest \<Rightarrow> delete_front_breakpoints (DeleteCodeBreakpoint_ptr front s))"
  by pat_completeness auto
termination
  by (relation "measure (\<lambda>s. length (all_breakpoints (breakpoints (cache s))))")
     (auto simp add: DeleteCodeBreakpoint_ptr_def)

declare delete_front_breakpoints.simps [simp del]

text \<open>\<^verbatim>\<open>OnDetached\<close>: the cache is refreshed, then every breakpoint is deleted.\<close>

definition OnDetached :: "Processor \<Rightarrow> Stub \<Rightarrow> fault + Stub" where
  "OnDetached processor s =
     (case UpdateCache processor (cache s) of
        Inl e \<Rightarrow> Inl e
      | Inr c \<Rightarrow> Inr (delete_front_breakpoints (s\<lparr>cache := c\<rparr>)))"

text \<open>
  The operations on the registry: Insert (with the host addresses the Processor
  has for the new breakpoint), Remove, and the two ways of removing all.
\<close>

datatype registry_op =
    Insert "64 word" "64 word list"
  | Remove "64 word"
  | RemoveAll
  | RemoveEach

fun apply_op :: "registry_op \<Rightarrow> Stub \<Rightarrow> Stub" where
  "apply_op (Insert addr hosts) s = snd (CreateCodeBreakpoint addr hosts s)"
| "apply_op (Remove addr) s = DeleteCodeBreakpoint addr s"
| "apply_op RemoveAll s = remove_all_breakpoints s"
| "apply_op RemoveEach s = delete_front_breakpoints s"

fun run_ops :: "registry_op list \<Rightarrow> Stub \<Rightarrow> Stub" where
  "run_ops [] s = s"
| "run_ops (op # ops) s = run_ops ops (apply_op op s)"

text \<open>
  The invariants of the registry: no two breakpoints with one guest address, and
  no host address in two breakpoints.
\<close>

definition shares_host :: "64 word list \<Rightarrow> Breakpoint \<Rightarrow> bool" where
  "shares_host hosts b = list_ex (\<lambda>a. ContainsHostAddress b a) hosts"

fun hosts_disjoint :: "Breakpoint list \<Rightarrow> bool" where
  "hosts_disjoint [] = True"
| "hosts_disjoint (b # bs) =
     (list_all (\<lambda>b'. \<not> shares_host (bp_host_addresses b) b') bs \<and> hosts_disjoint bs)"

definition registry_ok :: "Stub \<Rightarrow> bool" where
  "registry_ok s \<longleftrightarrow>
     distinct (map guest_address (all_breakpoints (breakpoints (cache s))))
     \<and> hosts_disjoint (all_breakpoints (breakpoints (cache s)))"

text \<open>A new breakpoint at \<open>addr\<close> with these host addresses would collide with \<open>b\<close>.\<close>

definition collides_with :: "64 word \<Rightarrow> 64 word list \<Rightarrow> Breakpoint \<Rightarrow> bool" where
  "collides_with addr hosts b \<longleftrightarrow> guest_address b = ucast addr \<or> shares_host hosts b"

text \<open>
  What every reachable state of the registry satisfies: the breakpoints owned
  are distinct objects with handles already given out, their guest addresses
  are distinct, no host address is in two of them, and the map has exactly one
  entry for each of them, under its guest address.
\<close>

definition registry_inv :: "Stub \<Rightarrow> bool" where
  "registry_inv s \<longleftrightarrow>
     (let bs = all_breakpoints (breakpoints (cache s));
          m = code_breakpoints_by_guest_address (breakpoints (cache s))
      in distinct (map bp_handle bs)
         \<and> (\<forall>b\<in>set bs. bp_handle b < next_handle s)
         \<and> distinct (map guest_address bs)
         \<and> (\<forall>b1\<in>set bs. \<forall>b2\<in>set bs.
               bp_handle b1 \<noteq> bp_handle b2 \<longrightarrow> \<not> shares_host (bp_host_addresses b1) b2)
         \<and> distinct (map fst m)
         \<and> set m = (\<lambda>b. (guest_address b, b)) ` set bs)"

text \<open>A short history of the registry for the examples.\<close>

definition example_ops :: "registry_op list" where
  "example_ops =
     [Insert 0x100 [0x7000, 0x7004], Insert 0x200 [0x8000], Remove 0x200, Insert 0x300 [0x8000]]"

section \<open>Reading memory\<close>

text \<open>
  Modelled from the spec: \<^verbatim>\<open>processor_->memory()\<close> is declared in headers that are
  not part of the sources at hand. It offers the lookup of the heap of an
  address (or null), the protection of an address in a heap (or failure), and
  the translation of a guest address to host memory, here the bytes from that
  place on. The flag \<^verbatim>\<open>kMemoryProtectRead\<close> is a constant of the same headers.
\<close>

record Memory =
  LookupHeap :: "32 word \<Rightarrow> nat option"
  QueryProtect :: "nat \<Rightarrow> 32 word \<Rightarrow> 32 word option"
  TranslateVirtual :: "32 word \<Rightarrow> nat \<Rightarrow> 8 word"
  kMemoryProtectRead :: "32 word"

text \<open>
  The head of \<^verbatim>\<open>ReadMemory\<close>: the address and the length of \<open>addr,len\<close>. Without a
  comma \<^verbatim>\<open>find\<close> returns \<^verbatim>\<open>npos\<close>, \<^verbatim>\<open>substr(0, npos)\<close> is the whole text and
  \<^verbatim>\<open>substr(npos + 1)\<close> is \<^verbatim>\<open>substr(0)\<close>, the whole text again.
\<close>

definition memory_range :: "string \<Rightarrow> (32 word \<times> 32 word) option" where
  "memory_range d =
     (let s = find_char (CHR '','') d;
          addr = hex_to_u32 (case s of None \<Rightarrow> d | Some i \<Rightarrow> take i d);
          len = hex_to_u32 (case s of None \<Rightarrow> d | Some i \<Rightarrow> drop (i + 1) d)
      in case (addr, len) of
           (Some a, Some l) \<Rightarrow> Some (a, l)
         | _ \<Rightarrow> None)"

definition ReadMemory :: "Memory \<Rightarrow> string \<Rightarrow> fault + string" where
  "ReadMemory mem d =
     (case memory_range d of
        None \<Rightarrow> Inl Uninitialized
      | Some (addr, len) \<Rightarrow>
          (case LookupHeap mem addr of
             None \<Rightarrow> Inr kGdbReplyError
           | Some heap \<Rightarrow>
               (case QueryProtect mem heap addr of
                  None \<Rightarrow> Inr kGdbReplyError
                | Some protect \<Rightarrow>
                    if protect AND kMemoryProtectRead mem \<noteq> kMemoryProtectRead mem
                    then Inr kGdbReplyError
                    else
                      let result = concat (map (\<lambda>i. to_hexbyte (TranslateVirtual mem addr i))
                                             [0..<unat len])
                      in if len \<noteq> 0 \<and> result = [] then Inr kGdbReplyError
                         else Inr result)))"

section \<open>The command dispatcher\<close>

text \<open>\<^verbatim>\<open>std::to_string\<close> of an unsigned value: its decimal numeral.\<close>

fun dec_digits :: "nat \<Rightarrow> string" where
  "dec_digits n = (if n < 10 then [hex_digit n]
                   else dec_digits (n div 10) @ [hex_digit (n mod 10)])"

declare dec_digits.simps [simp del]

text \<open>
  \<^verbatim>\<open>std::string::substr(pos)\<close> throws \<^verbatim>\<open>std::out_of_range\<close> past the end; and
  \<^verbatim>\<open>substr(0, find(c))\<close>, the text up to the first \<open>c\<close>, or all of it.
\<close>

definition substr_from :: "nat \<Rightarrow> string \<Rightarrow> string option" where
  "substr_from pos s = (if pos > length s then None else Some (drop pos s))"

definition up_to_char :: "char \<Rightarrow> string \<Rightarrow> string" where
  "up_to_char c s = (case find_char c s of None \<Rightarrow> s | Some i \<Rightarrow> take i s)"

text \<open>
  \<^verbatim>\<open>std::stol\<close> and \<^verbatim>\<open>std::stoull\<close> in base 16, as \<^verbatim>\<open>strtol\<close> reads a number: white
  space, an optional sign, an optional \<open>0x\<close> before a digit, then the digits.
  Without a digit they throw \<^verbatim>\<open>std::invalid_argument\<close>, out of the range of the
  type \<^verbatim>\<open>std::out_of_range\<close>. The width of \<^verbatim>\<open>long\<close> depends on the platform.
\<close>

datatype exception = out_of_range | invalid_argument

definition isspace :: "char \<Rightarrow> bool" where
  "isspace c \<longleftrightarrow> c = CHR '' '' \<or> (9 \<le> (of_char c :: nat) \<and> (of_char c :: nat) \<le> 13)"

definition strip_sign :: "string \<Rightarrow> bool \<times> string" where
  "strip_sign s =
     (case s of
        c # rest \<Rightarrow> if c = CHR ''-'' then (True, rest)
                    else if c = CHR ''+'' then (False, rest) else (False, s)
      | [] \<Rightarrow> (False, s))"

definition strip_0x :: "string \<Rightarrow> string" where
  "strip_0x s =
     (case s of
        z # x # d # rest \<Rightarrow>
          if z = CHR ''0'' \<and> (x = CHR ''x'' \<or> x = CHR ''X'') \<and> is_hex_digit d then d # rest else s
      | _ \<Rightarrow> s)"

text \<open>The sign and the magnitude read, if there is a digit.\<close>

definition strto16 :: "string \<Rightarrow> (bool \<times> nat) option" where
  "strto16 s =
     (let (negative, rest) = strip_sign (dropWhile isspace s);
          digits = strip_0x rest
      in if takeWhile is_hex_digit digits = [] then None
         else Some (negative, hex_prefix_value digits))"

definition stoull16 :: "string \<Rightarrow> exception + 64 word" where
  "stoull16 s =
     (case strto16 s of
        None \<Rightarrow> Inl invalid_argument
      | Some (negative, v) \<Rightarrow>
          if v \<ge> 2 ^ 64 then Inl out_of_range
          else Inr (if negative then - of_nat v else of_nat v))"

definition stol16 :: "nat \<Rightarrow> string \<Rightarrow> exception + int" where
  "stol16 long_bits s =
     (case strto16 s of
        None \<Rightarrow> Inl invalid_argument
      | Some (negative, v) \<Rightarrow>
          let n = (if negative then - int v else int v)
          in if n < - (2 ^ (long_bits - 1)) \<or> n \<ge> 2 ^ (long_bits - 1) then Inl out_of_range
             else Inr n)"

text \<open>
  The static target description \<^verbatim>\<open>target_xml\<close>, line by line: the 32 general
  registers, \<open>pc\<close> to \<open>xer\<close>, the 32 floating-point registers and \<open>fpscr\<close>.
\<close>

definition dq :: string where "dq = [CHR 0x22]"
definition nl :: string where "nl = [CHR 0x0A]"

definition reg_line :: "string \<Rightarrow> string \<Rightarrow> string \<Rightarrow> string \<Rightarrow> string" where
  "reg_line name bits type extra =
     ''  <reg name='' @ dq @ name @ dq @ '' bitsize='' @ dq @ bits @ dq
     @ '' type='' @ dq @ type @ dq @ extra @ ''/>'' @ nl"

definition target_xml :: string where
  "target_xml =
     ''l<?xml version='' @ dq @ ''1.0'' @ dq @ ''?>'' @ nl
     @ ''<!DOCTYPE target SYSTEM '' @ dq @ ''gdb-target.dtd'' @ dq @ ''>'' @ nl
     @ ''<target version='' @ dq @ ''1.0'' @ dq @ ''>'' @ nl
     @ ''<feature name='' @ dq @ ''org.gnu.gdb.power.core'' @ dq @ ''>'' @ nl
     @ concat (map (\<lambda>i. reg_line (''r'' @ dec_digits i) ''32'' ''uint32'' []) [0..<32])
     @ nl
     @ reg_line ''pc'' ''32'' ''code_ptr'' ('' regnum='' @ dq @ ''64'' @ dq)
     @ reg_line ''msr'' ''32'' ''uint32'' []
     @ reg_line ''cr'' ''32'' ''uint32'' []
     @ reg_line ''lr'' ''32'' ''code_ptr'' []
     @ reg_line ''ctr'' ''32'' ''uint32'' []
     @ reg_line ''xer'' ''32'' ''uint32'' []
     @ ''</feature>'' @ nl
     @ ''<feature name='' @ dq @ ''org.gnu.gdb.power.fpu'' @ dq @ ''>'' @ nl
     @ reg_line ''f0'' ''64'' ''ieee_double'' ('' regnum='' @ dq @ ''32'' @ dq)
     @ concat (map (\<lambda>i. reg_line (''f'' @ dec_digits i) ''64'' ''ieee_double'' []) [1..<32])
     @ nl
     @ ''  <reg name='' @ dq @ ''fpscr'' @ dq @ '' bitsize='' @ dq @ ''32'' @ dq
       @ '' group='' @ dq @ ''float'' @ dq @ '' regnum='' @ dq @ ''70'' @ dq @ ''/>'' @ nl
     @ ''</feature>'' @ nl
     @ ''</target>'' @ nl"

definition BuildThreadList :: "Cache \<Rightarrow> string" where
  "BuildThreadList c =
     ''l<?xml version='' @ dq @ ''1.0'' @ dq @ ''?>'' @ ''<threads>''
     @ concat (map (\<lambda>thread.
          ''<thread id='' @ dq @ hex_digits (unat (thread_id thread)) @ dq
          @ '' name='' @ dq @ thread_name thread @ dq @ ''></thread>'')
        (thread_debug_infos c))
     @ ''</threads>''"

text \<open>
  What a handler needs around the stub: the Processor and its memory, the host
  addresses the Processor has for a breakpoint at an address, and the width of
  \<^verbatim>\<open>long\<close>.
\<close>

record Environment =
  env_processor :: Processor
  env_memory :: Memory
  env_host_addresses :: "64 word \<Rightarrow> 64 word list"
  env_long_bits :: nat

text \<open>A result: undefined behaviour, an exception that leaves the handler, or a value.\<close>

datatype 'a outcome = Undefined fault | Throws exception | Returns 'a

definition DebuggerDetached :: "Environment \<Rightarrow> Stub \<Rightarrow> string \<times> Stub" where
  "DebuggerDetached env s =
     (let s1 = remove_all_breakpoints s;
          s2 = (if execution_state (env_processor env) = kPaused
                then s1\<lparr>processor_calls := processor_calls s1 @ [Continue]\<rparr> else s1)
      in (kGdbReplyOK, s2))"

definition ExecutionPause :: "Stub \<Rightarrow> string \<times> Stub" where
  "ExecutionPause s = (kGdbReplyOK, s\<lparr>processor_calls := processor_calls s @ [Pause]\<rparr>)"

definition ExecutionContinue :: "Stub \<Rightarrow> string \<times> Stub" where
  "ExecutionContinue s = (kGdbReplyOK, s\<lparr>processor_calls := processor_calls s @ [Continue]\<rparr>)"

definition ExecutionStep :: "Stub \<Rightarrow> string \<times> Stub" where
  "ExecutionStep s =
     (if last_bp_thread_id (cache s) \<noteq> - 1
      then (kGdbReplyOK,
            s\<lparr>processor_calls :=
                 processor_calls s @ [StepGuestInstruction (last_bp_thread_id (cache s))]\<rparr>)
      else (kGdbReplyOK, s))"

text \<open>The handler of \<open>H\<close>.\<close>

definition SetThreadId :: "Environment \<Rightarrow> string \<Rightarrow> Stub \<Rightarrow> (string \<times> Stub) outcome" where
  "SetThreadId env d s =
     (let infos = thread_debug_infos (cache s);
          c1 = (cache s)\<lparr>cur_thread_id := (case infos of [] \<Rightarrow> - 1 | t # ts \<Rightarrow> thread_id t)\<rparr>
      in case substr_from 1 d of
           None \<Rightarrow> Throws out_of_range
         | Some number \<Rightarrow>
             (case stol16 (env_long_bits env) number of
                Inl e \<Rightarrow> Throws e
              | Inr n \<Rightarrow>
                  let threadId = (of_int n :: 32 word);
                      c2 = (if list_ex (\<lambda>thread. thread_id thread = threadId) infos
                            then c1\<lparr>cur_thread_id := threadId\<rparr> else c1)
                  in Returns (kGdbReplyOK, s\<lparr>cache := c2\<rparr>)))"

text \<open>The address in the data of \<open>Z\<close> and \<open>z\<close>.\<close>

definition breakpoint_address :: "string \<Rightarrow> 64 word outcome" where
  "breakpoint_address d =
     (case substr_from 2 d of
        None \<Rightarrow> Throws out_of_range
      | Some hex_addr \<Rightarrow>
          (case stoull16 (up_to_char (CHR '','') hex_addr) of
             Inl e \<Rightarrow> Throws e
           | Inr addr \<Rightarrow> Returns addr))"

text \<open>The handler of \<open>qXfer\<close>.\<close>

definition Xfer :: "string \<Rightarrow> Cache \<Rightarrow> string" where
  "Xfer d c =
     (let param = (if length d > 0 \<and> hd d = CHR '':'' then drop 1 d else d);
          sub_cmd = up_to_char (CHR '':'') param
      in if sub_cmd = ''features'' then target_xml
         else if sub_cmd = ''threads'' then BuildThreadList c
         else kGdbReplyError)"

text \<open>The keys of \<^verbatim>\<open>command_map\<close>.\<close>

definition command_names :: "string list" where
  "command_names =
     [''?'', ''D'', ''!'', ''C'', ''c'', ''s'', [CHR 0x03], ''m'', ''p'', ''P'', ''g'',
      ''vAttach'', ''qC'', ''H'', ''Z'', ''z'', ''qXfer'', ''qSupported'', ''qfThreadInfo'']"

text \<open>
  \<^verbatim>\<open>HandleGDBCommand\<close>: the reply and the stub afterwards. What the Processor
  does on a call, its events among it, is not part of the handler.
\<close>

definition HandleGDBCommand :: "Environment \<Rightarrow> GDBCommand \<Rightarrow> Stub \<Rightarrow> (string \<times> Stub) outcome" where
  "HandleGDBCommand env command s =
     (let name = cmd command; d = data command in
      if name = ''?'' then Returns (''S05'', s)
      else if name = ''D'' then Returns (DebuggerDetached env s)
      else if name = ''!'' then Returns (kGdbReplyOK, s)
      else if name = ''C'' then Returns (ExecutionContinue s)
      else if name = ''c'' then Returns (ExecutionContinue s)
      else if name = ''s'' then Returns (ExecutionStep s)
      else if name = [CHR 0x03] then Returns (ExecutionPause s)
      else if name = ''m'' then
        (case ReadMemory (env_memory env) d of
           Inl e \<Rightarrow> Undefined e
         | Inr reply \<Rightarrow> Returns (reply, s))
      else if name = ''p'' then
        (case ReadRegister_data d (cache s) of
           Inl e \<Rightarrow> Undefined e
         | Inr (reply, c') \<Rightarrow> Returns (reply, s\<lparr>cache := c'\<rparr>))
      else if name = ''P'' then Returns (kGdbReplyOK, s)
      else if name = ''g'' then
        (case ReadRegisters (cache s) of
           Inl e \<Rightarrow> Undefined e
         | Inr (reply, c') \<Rightarrow> Returns (reply, s\<lparr>cache := c'\<rparr>))
      else if name = ''vAttach'' then Returns (''S05'', s)
      else if name = ''qC'' then
        (case cur_thread_info (cache s) of
           None \<Rightarrow> Undefined NullThread
         | Some thread \<Rightarrow> Returns (''QC'' @ dec_digits (unat (thread_id thread)), s))
      else if name = ''H'' then SetThreadId env d s
      else if name = ''Z'' then
        (case breakpoint_address d of
           Undefined e \<Rightarrow> Undefined e
         | Throws e \<Rightarrow> Throws e
         | Returns addr \<Rightarrow>
             (case CreateCodeBreakpoint addr (env_host_addresses env addr) s of
                (created, s') \<Rightarrow>
                  Returns (if created then kGdbReplyOK else kGdbReplyError, s')))
      else if name = ''z'' then
        (case breakpoint_address d of
           Undefined e \<Rightarrow> Undefined e
         | Throws e \<Rightarrow> Throws e
         | Returns addr \<Rightarrow> Returns (kGdbReplyOK, DeleteCodeBreakpoint addr s))
      else if name = ''qXfer'' then Returns (Xfer d (cache s), s)
      else if name = ''qSupported'' then
        Returns (''PacketSize=1024;qXfer:features:read+;qXfer:threads:read+'', s)
      else if name = ''qfThreadInfo'' then
        Returns (''m'' @ foldl (\<lambda>result thread.
                      (if result \<noteq> [] then result @ '','' else result)
                      @ dec_digits (unat (thread_id thread)))
                    [] (thread_debug_infos (cache s)), s)
      else Returns ([], s))"

text \<open>A guest memory for the examples: one readable heap from \<open>0x1000\<close> on.\<close>

definition example_environment :: Environment where
  "example_environment =
     \<lparr>env_processor = example_processor,
      env_memory =
        \<lparr>LookupHeap = (\<lambda>a. if a < 0x1000 then None else Some 0),
         QueryProtect = (\<lambda>heap a. Some 3),
         TranslateVirtual = (\<lambda>a i. of_nat (unat a + i)),
         kMemoryProtectRead = 1\<rparr>,
      env_host_addresses = (\<lambda>a. [a + 0x70000000]),
      env_long_bits = 32\<rparr>"

section \<open>The session after a Processor event\<close>

















section \<open>Properties of the codec\<close>

lemma char_of_byte_byte_of [simp]: "char_of_byte (byte_of c) = c"
  by (simp add: char_of_byte_def byte_of_def unat_of_nat)

lemma parse_loop_data_phase:
  "wire_ok w \<Longrightarrow>
   parse_loop (w @ CHR ''#'' # t) False s cm da = (t, s + rx_sum w, cm, da @ unescape w)"
proof (induction w arbitrary: s da rule: wire_ok.induct)
  case 1 then show ?case by (simp add: PacketEnd_def)
next
  case (2 c) then show ?case by (simp add: PacketEnd_def Let_def)
next
  case (3 c n r)
  then show ?case by (auto simp add: PacketEnd_def Let_def ReadCharFromBuffer_def add.assoc)
qed

lemma parse_loop_cmd_phase:
  "wire_ok w \<Longrightarrow> cm \<noteq> [] \<Longrightarrow>
   parse_loop (w @ CHR ''#'' # t) True s cm da =
     (t, s + rx_sum w, cm @ takeWhile (\<lambda>x. \<not> is_splitter x) (unescape w),
      da @ dropWhile (\<lambda>x. \<not> is_splitter x) (unescape w))"
proof (induction w arbitrary: s cm da rule: wire_ok.induct)
  case 1 then show ?case by (simp add: PacketEnd_def)
next
  case (2 c) then show ?case by (simp add: PacketEnd_def Let_def)
next
  case (3 c n r)
  show ?case
  proof (cases "c = CHR ''}''")
    case True
    with 3 have w: "wire_ok r" by simp
    show ?thesis
    proof (cases "is_splitter (xor20 n)")
      case s: True
      with True w "3.prems" show ?thesis
        by (simp add: PacketEnd_def Let_def ReadCharFromBuffer_def add.assoc parse_loop_data_phase)
    next
      case s: False
      with True w "3.prems" "3.IH"(1)[of "cm @ [xor20 n]"] show ?thesis
        by (simp add: PacketEnd_def Let_def ReadCharFromBuffer_def add.assoc)
    qed
  next
    case False
    with 3 have w: "wire_ok (n # r)" and c: "c \<noteq> CHR 0x00" "c \<noteq> CHR ''#''" by simp_all
    show ?thesis
    proof (cases "is_splitter c")
      case s: True
      with False w c "3.prems" parse_loop_data_phase[OF w, of t] show ?thesis
        by (simp add: PacketEnd_def Let_def add.assoc)
    next
      case s: False
      with False w c "3.prems" "3.IH"(2)[of "cm @ [c]"] show ?thesis
        by (simp add: PacketEnd_def Let_def add.assoc)
    qed
  qed
qed

lemma wire_ok_plain_Cons:
  "wire_ok (c # w) \<Longrightarrow> c \<noteq> CHR ''}'' \<Longrightarrow>
   wire_ok w \<and> c \<noteq> CHR 0x00 \<and> c \<noteq> CHR ''#'' \<and> unescape (c # w) = c # unescape w
   \<and> rx_sum (c # w) = byte_of c + rx_sum w"
  by (cases w) auto

lemma wire_ok_escape_Cons:
  "wire_ok (CHR ''}'' # w) \<Longrightarrow>
   \<exists>n r. w = n # r \<and> wire_ok r \<and> unescape (CHR ''}'' # w) = xor20 n # unescape r
     \<and> rx_sum (CHR ''}'' # w) = byte_of (CHR ''}'') + byte_of (xor20 n) + rx_sum r"
  by (cases w) auto

lemma parse_loop_wire:
  assumes "wire_ok w"
  shows "parse_loop (w @ CHR ''#'' # t) True 0 [] [] =
           (t, rx_sum w, split_cmd (unescape w), split_data (unescape w))"
proof (cases w)
  case Nil
  then show ?thesis by (simp add: PacketEnd_def split_cmd_def split_data_def)
next
  case (Cons c w')
  show ?thesis
  proof (cases "c = CHR ''}''")
    case True
    from wire_ok_escape_Cons assms Cons True obtain n r where
      w': "w' = n # r" and ok: "wire_ok r" by blast
    show ?thesis
      using Cons True w' ok
      by (simp add: PacketEnd_def Let_def ReadCharFromBuffer_def split_cmd_def split_data_def
          parse_loop_data_phase parse_loop_cmd_phase add.assoc)
  next
    case False
    from wire_ok_plain_Cons[of c w'] assms Cons False have
      ok: "wire_ok w'" and c: "c \<noteq> CHR 0x00" "c \<noteq> CHR ''#''"
      and u: "unescape (c # w') = c # unescape w'" and r: "rx_sum (c # w') = byte_of c + rx_sum w'"
      by simp_all
    show ?thesis
      using Cons False ok c u r
      by (simp add: PacketEnd_def Let_def split_cmd_def split_data_def
          parse_loop_data_phase parse_loop_cmd_phase del: unescape.simps rx_sum.simps)
  qed
qed

lemma parse_body_wire:
  "wire_ok w \<Longrightarrow>
   parse_body (w @ CHR ''#'' # h # l # t) =
     (hex_value h l = rx_sum w,
      \<lparr>cmd = split_cmd (unescape w), data = split_data (unescape w), checksum = hex_value h l\<rparr>)"
  by (simp add: parse_body_def parse_loop_wire ReadHexByteFromBuffer_def hex_value_def)


lemma ParsePacket_start: "ParsePacket (CHR ''$'' # r) out = parse_body r"
  by (simp add: ParsePacket_def ReadCharFromBuffer_def PacketStart_def)

lemma ParsePacket_other:
  "c \<noteq> CHR ''$'' \<Longrightarrow> c \<noteq> CHR ''+'' \<Longrightarrow>
   ParsePacket (c # r) out = (if c = CHR 0x03 then (True, interrupt_command) else (False, out))"
  by (simp add: ParsePacket_def ReadCharFromBuffer_def PacketStart_def Ack_def Interrupt_def
      interrupt_command_def)


lemma ParsePacket_ack_other:
  "c \<noteq> CHR ''+'' \<Longrightarrow>
   ParsePacket (CHR ''+'' # c # r) out =
     (if c = CHR 0x03 then (True, interrupt_command)
      else if c = CHR ''$'' then parse_body r else (False, out))"
  by (simp add: ParsePacket_def ReadCharFromBuffer_def PacketStart_def Ack_def Interrupt_def
      interrupt_command_def)


lemma ParsePacket_ack_ack:
  "ParsePacket (CHR ''+'' # CHR ''+'' # c # r) out =
     (if c = CHR 0x03 then (True, interrupt_command)
      else if c = CHR ''$'' then parse_body r else (False, out))"
  by (simp add: ParsePacket_def ReadCharFromBuffer_def PacketStart_def Ack_def Interrupt_def
      interrupt_command_def)

lemma packet_shape:
  obtains "p = []"
  | r where "p = CHR ''$'' # r"
  | c r where "p = c # r" "c \<noteq> CHR ''$''" "c \<noteq> CHR ''+''"
  | "p = [CHR ''+'']"
  | c r where "p = CHR ''+'' # c # r" "c \<noteq> CHR ''+''"
  | "p = [CHR ''+'', CHR ''+'']"
  | c r where "p = CHR ''+'' # CHR ''+'' # c # r"
proof (cases p)
  case Nil then show ?thesis using that(1) by simp
next
  case (Cons a p1)
  show ?thesis
  proof (cases "a = CHR ''+''")
    case False
    with Cons that(2,3) show ?thesis by (cases "a = CHR ''$''") auto
  next
    case True
    show ?thesis
    proof (cases p1)
      case Nil with Cons True that(4) show ?thesis by simp
    next
      case c2: (Cons b p2)
      show ?thesis
      proof (cases "b = CHR ''+''")
        case False with Cons True c2 that(5) show ?thesis by simp
      next
        case b: True
        with Cons True c2 that(6,7) show ?thesis by (cases p2) auto
      qed
    qed
  qed
qed

lemma ParsePacket_interrupt:
  "is_interrupt_packet p \<Longrightarrow> ParsePacket p out = (True, interrupt_command)"
  by (cases p rule: packet_shape)
     (simp_all add: is_interrupt_packet_def Interrupt_def Ack_def ParsePacket_other
        ParsePacket_ack_other ParsePacket_ack_ack)


lemma cut_packets_concat: "cut_packets buf = (ps, r) \<Longrightarrow> concat ps @ r = buf"
proof (induction buf arbitrary: ps r rule: cut_packets.induct)
  case (1 buf)
  show ?case
  proof (cases "find_char PacketEnd buf")
    case None
    with "1.prems" show ?thesis by (simp add: cut_packets.simps[of buf])
  next
    case (Some e)
    show ?thesis
    proof (cases "e + 2 < length buf")
      case False
      with Some "1.prems" show ?thesis by (simp add: cut_packets.simps[of buf])
    next
      case True
      obtain ps' r' where f: "cut_packets (drop (e + 3) buf) = (ps', r')" by force
      from "1.IH"[OF Some True f] have "concat ps' @ r' = drop (e + 3) buf" .
      with Some True f "1.prems" show ?thesis
        by (auto simp add: cut_packets.simps[of buf])
    qed
  qed
qed

lemma rx_loop_cut_packets:
  "rx_loop h False buf s =
     (fst (handle_packets h (fst (cut_packets buf)) s), snd (cut_packets buf),
      snd (handle_packets h (fst (cut_packets buf)) s))"
proof (induction buf arbitrary: s rule: cut_packets.induct)
  case (1 buf)
  show ?case
  proof (cases "find_char PacketEnd buf")
    case None
    then show ?thesis by (simp add: cut_packets.simps[of buf] rx_loop.simps[of h False buf])
  next
    case (Some e)
    show ?thesis
    proof (cases "e + 2 < length buf")
      case False
      with Some show ?thesis by (simp add: cut_packets.simps[of buf] rx_loop.simps[of h False buf])
    next
      case True
      from "1.IH"[OF Some True] Some True show ?thesis
        by (simp add: cut_packets.simps[of buf] rx_loop.simps[of h False buf] split: prod.splits)
    qed
  qed
qed

lemma rx_loop_interrupt:
  "rx_loop h True buf s = (fst (handle_packet h [Interrupt] s), [], snd (handle_packet h [Interrupt] s))"
  by (simp add: rx_loop.simps[of h True buf] rx_loop.simps[of h False "[]"] split: prod.splits)

lemma ProcessIncomingData_cut_packets:
  "received \<noteq> [] \<Longrightarrow> received \<noteq> [Interrupt] \<Longrightarrow>
   ProcessIncomingData h received buf s =
     (True, fst (handle_packets h (fst (cut_packets (buf @ received))) s),
      snd (cut_packets (buf @ received)),
      snd (handle_packets h (fst (cut_packets (buf @ received))) s))"
  by (cases received) (auto simp add: ProcessIncomingData_def rx_loop_cut_packets)

lemma ProcessIncomingData_interrupt:
  "ProcessIncomingData h [Interrupt] buf s =
     (True, fst (handle_packet h [Interrupt] s), [], snd (handle_packet h [Interrupt] s))"
  by (simp add: ProcessIncomingData_def rx_loop_interrupt)

lemma handle_packet_gate:
  "handle_packet h p s =
     (if fst (ParsePacket p empty_command)
      then ([[Ack], SendPacket (fst (h (snd (ParsePacket p empty_command)) s))],
            snd (h (snd (ParsePacket p empty_command)) s))
      else ([[Nack]], s))"
  by (simp add: handle_packet_def split: prod.splits bool.splits)

subsection \<open>Checksum verification gates the dispatch\<close>






subsection \<open>An escaped packet with the sender's checksum\<close>

lemma byte_of_char_of_byte [simp]: "byte_of (char_of_byte b) = b"
proof -
  have "unat b < 256" using unsigned_less[of b, where ?'a = nat] by simp
  then show ?thesis by (simp add: byte_of_def char_of_byte_def)
qed

lemma xor20_xor20 [simp]: "xor20 (xor20 c) = c"
  by (simp add: xor20_def xor.assoc)

lemma reserved_byte: "reserved c \<Longrightarrow> byte_of c = byte_of (xor20 c) + 0x20"
  unfolding reserved_def by (elim disjE) (simp_all, code_simp+)

lemma wire_ok_plain [simp]:
  "c \<noteq> CHR ''}'' \<Longrightarrow> wire_ok (c # w) = (c \<noteq> CHR 0x00 \<and> c \<noteq> CHR ''#'' \<and> wire_ok w)"
  by (cases w) auto

lemma unescape_plain [simp]: "c \<noteq> CHR ''}'' \<Longrightarrow> unescape (c # w) = c # unescape w"
  by (cases w) auto

lemma rx_sum_plain [simp]: "c \<noteq> CHR ''}'' \<Longrightarrow> rx_sum (c # w) = byte_of c + rx_sum w"
  by (cases w) auto

lemma wire_ok_escape_body: "CHR 0x00 \<notin> set body \<Longrightarrow> wire_ok (escape_body body)"
  by (induction body) (auto simp add: reserved_def)

lemma unescape_escape_body: "unescape (escape_body body) = body"
  by (induction body) (auto simp add: reserved_def)

lemma foldl_byte_sum: "foldl (\<lambda>s c. s + byte_of c) a w = a + foldl (\<lambda>s c. s + byte_of c) 0 w"
proof (induction w arbitrary: a)
  case Nil
  then show ?case by simp
next
  case (Cons c w)
  from Cons[of "a + byte_of c"] Cons[of "byte_of c"] show ?case by (simp add: add.assoc)
qed

lemma wire_sum_Cons: "wire_sum (c # w) = byte_of c + wire_sum w"
  using foldl_byte_sum[of "byte_of c" w] by (simp add: wire_sum_def)

lemma rx_sum_escape_body:
  "rx_sum (escape_body body) =
     wire_sum (escape_body body) + 0x20 * of_nat (length (filter reserved body))"
proof (induction body)
  case Nil
  then show ?case by (simp add: wire_sum_def)
next
  case (Cons c body)
  show ?case
  proof (cases "reserved c")
    case True
    from reserved_byte[OF True] Cons True show ?thesis
      by (simp add: wire_sum_Cons algebra_simps)
  next
    case False
    then have "c \<noteq> CHR ''}''" by (auto simp add: reserved_def)
    with Cons False show ?thesis by (simp add: wire_sum_Cons algebra_simps)
  qed
qed

lemma from_hexchar_hex_digit: "d < 16 \<Longrightarrow> from_hexchar (hex_digit d) = of_nat d"
proof -
  have "list_all (\<lambda>d. from_hexchar (hex_digit d) = of_nat d) [0..<16]" by code_simp
  then show "d < 16 \<Longrightarrow> from_hexchar (hex_digit d) = of_nat d"
    by (simp add: list_all_iff)
qed

lemma high_nibble_bound: "unat (drop_bit 4 (x :: 8 word)) < 16"
proof -
  have "unat x < 256" using unsigned_less[of x, where ?'a = nat] by simp
  then have "unat x div 16 < 16" by simp
  then show ?thesis by (simp add: unat_drop_bit_eq drop_bit_eq_div unat_div)
qed

lemma low_nibble_eq: "(x :: 8 word) AND 0xF = take_bit 4 x"
proof -
  have "(0xF :: 8 word) = mask 4" by (simp add: mask_eq_exp_minus_1)
  then show ?thesis by (simp add: take_bit_eq_mask)
qed

lemma low_nibble_bound: "unat ((x :: 8 word) AND 0xF) < 16"
proof -
  have "unat x mod 16 < 16" by simp
  with low_nibble_eq[of x] show ?thesis
    by (simp add: unsigned_take_bit_eq take_bit_eq_mod unat_mod)
qed

lemma nibbles_join: "push_bit 4 (drop_bit 4 (x :: 8 word)) OR (x AND 0xF) = x"
  using low_nibble_eq[of x] by (simp add: bit_eq_iff bit_simps) (auto simp add: bit_simps)

lemma ReadHexByteFromBuffer_to_hexbyte: "ReadHexByteFromBuffer (to_hexbyte x) = x"
  using nibbles_join[of x]
  by (simp add: ReadHexByteFromBuffer_def to_hexbyte_def Let_def
      from_hexchar_hex_digit[OF high_nibble_bound] from_hexchar_hex_digit[OF low_nibble_bound])

lemma escaped_sums_agree:
  "(x + 0x20 * (of_nat k :: 8 word) = x) = (8 dvd k)"
proof -
  have "0x20 * (of_nat k :: 8 word) = of_nat (32 * k)" by simp
  moreover have "((256 :: nat) dvd 32 * k) = (8 dvd k)"
    using nat_mult_dvd_cancel_disj[of 32 8 k] by simp
  ultimately have "(0x20 * (of_nat k :: 8 word) = 0) = (8 dvd k)"
    by (simp only: word_of_nat_eq_0_iff) simp
  then show ?thesis by simp
qed

text \<open>
  What the receiver makes of a packet of the sending debugger, for a body without
  NUL: command and data are split from the body as it was before escaping, the
  checksum read is the sum of the bytes on the wire, and the packet is accepted
  exactly when the number of escaped bytes is a multiple of 8, each escape
  making the sum of the parser \<open>0x20\<close> larger than the sum on the wire.
\<close>

lemma parse_encode_packet:
  assumes "CHR 0x00 \<notin> set body"
  shows "ParsePacket (encode_packet body) out =
           (8 dvd length (filter reserved body),
            \<lparr>cmd = split_cmd body, data = split_data body,
             checksum = wire_sum (escape_body body)\<rparr>)"
proof -
  let ?w = "escape_body body"
  have ok: "wire_ok ?w" by (rule wire_ok_escape_body[OF assms])
  have "parse_loop (?w @ CHR ''#'' # to_hexbyte (wire_sum ?w)) True 0 [] [] =
          (to_hexbyte (wire_sum ?w), rx_sum ?w, split_cmd (unescape ?w), split_data (unescape ?w))"
    by (rule parse_loop_wire[OF ok])
  then have "parse_body (?w @ CHR ''#'' # to_hexbyte (wire_sum ?w)) =
          (wire_sum ?w = rx_sum ?w,
           \<lparr>cmd = split_cmd body, data = split_data body, checksum = wire_sum ?w\<rparr>)"
    by (simp add: parse_body_def ReadHexByteFromBuffer_to_hexbyte unescape_escape_body)
  moreover have "(wire_sum ?w = rx_sum ?w) = (8 dvd length (filter reserved body))"
    using escaped_sums_agree[of "wire_sum ?w" "length (filter reserved body)"]
    by (auto simp add: rx_sum_escape_body)
  ultimately show ?thesis
    by (simp add: encode_packet_def PacketStart_def PacketEnd_def ParsePacket_start)
qed

text \<open>
  Claim C4. The debugger escapes \<open>#\<close> as \<open>}\<close> followed by \<open>0x03\<close> and sums the
  bytes it puts on the wire. The parser adds the byte after \<open>}\<close> to its checksum
  only once it has XORed it with \<open>0x20\<close>, so its sum is \<open>0x20\<close> larger and the
  packet is refused, although command and data are decoded as the body was.
\<close>

theorem C4_escaped_packet_refused:
  "encode_packet ''X10,1:#'' = ''$X10,1:}'' @ [CHR 0x03] @ ''#d0''
   \<and> ParsePacket (encode_packet ''X10,1:#'') empty_command =
       (False, \<lparr>cmd = ''X'', data = ''10,1:#'', checksum = 0xd0\<rparr>)
   \<and> handle_packet log_command (encode_packet ''X10,1:#'') [] = ([''-''], [])"
  by code_simp

subsection \<open>Splitting command and data\<close>

text \<open>
  Claim C5, as stated, at the packet \<open>$qSupported:xyz#dc\<close>: the data is \<open>:xyz\<close>,
  not \<open>xyz\<close>; the delimiter is kept.
\<close>

theorem C5_delimiter_discarded_counterexample:
  "ParsePacket ''$qSupported:xyz#dc'' empty_command =
     (True, \<lparr>cmd = ''qSupported'', data = '':xyz'', checksum = 0xdc\<rparr>)
   \<and> data (snd (ParsePacket ''$qSupported:xyz#dc'' empty_command)) \<noteq> ''xyz''"
  by code_simp

text \<open>
  Claim C5, amended. For a packet whose first body byte is \<open>q\<close> or \<open>v\<close>, the
  command is the bytes up to, and excluding, the first \<open>:\<close>, \<open>.\<close> or \<open>;\<close> of the
  unescaped body, and the data is that delimiter followed by the bytes after it:
  the delimiter is the first byte of the data.
\<close>

theorem C5_split_keeps_delimiter:
  assumes "b = CHR ''q'' \<or> b = CHR ''v''"
    and "wire_ok w"
    and "unescape w = pre @ d # post"
    and "is_splitter d"
    and "\<forall>x\<in>set pre. \<not> is_splitter x"
  shows "snd (ParsePacket (CHR ''$'' # b # w @ CHR ''#'' # hi # lo # t) out) =
           \<lparr>cmd = b # pre, data = d # post, checksum = hex_value hi lo\<rparr>"
proof -
  from assms(1) have nb: "b \<noteq> CHR ''}''" "\<not> is_splitter b" "b \<noteq> CHR 0x00" "b \<noteq> CHR ''#''"
    by (auto simp add: is_splitter_def)
  from nb assms(2) have ok: "wire_ok (b # w)" by (cases w) auto
  from nb have u: "unescape (b # w) = b # unescape w" by (cases w) auto
  from assms(4,5) have tk: "takeWhile (\<lambda>x. \<not> is_splitter x) (pre @ d # post) = pre"
    and dr: "dropWhile (\<lambda>x. \<not> is_splitter x) (pre @ d # post) = d # post"
    by (simp_all add: takeWhile_append2 dropWhile_append2)
  from parse_body_wire[OF ok, of hi lo t] have
    "ParsePacket (CHR ''$'' # b # w @ CHR ''#'' # hi # lo # t) out =
       (hex_value hi lo = rx_sum (b # w),
        \<lparr>cmd = split_cmd (unescape (b # w)), data = split_data (unescape (b # w)),
         checksum = hex_value hi lo\<rparr>)"
    by (simp add: ParsePacket_start)
  with u nb assms(1,3) tk dr show ?thesis
    by (auto simp add: split_cmd_def split_data_def)
qed

theorem C5_split_keeps_delimiter_witness:
  "(CHR ''q'' = CHR ''q'' \<or> CHR ''q'' = CHR ''v'')
   \<and> wire_ok ''Supported:xyz''
   \<and> unescape ''Supported:xyz'' = ''Supported'' @ CHR '':'' # ''xyz''
   \<and> is_splitter (CHR '':'')
   \<and> list_all (\<lambda>x. \<not> is_splitter x) ''Supported''
   \<and> snd (ParsePacket ''$qSupported:xyz#dc'' empty_command) =
       \<lparr>cmd = ''qSupported'', data = '':xyz'', checksum = hex_value (CHR ''d'') (CHR ''c'')\<rparr>"
proof -
  have e1: "wire_ok ''Supported:xyz''" by code_simp
  have e2: "unescape ''Supported:xyz'' = ''Supported'' @ CHR '':'' # ''xyz''" by code_simp
  have e3: "is_splitter (CHR '':'')" by code_simp
  have e5: "list_all (\<lambda>x. \<not> is_splitter x) ''Supported''" by code_simp
  then have e4: "\<forall>x\<in>set ''Supported''. \<not> is_splitter x" by (simp only: list_all_iff)
  from C5_split_keeps_delimiter[of "CHR ''q''" "''Supported:xyz''" "''Supported''" "CHR '':''"
      "''xyz''" "CHR ''d''" "CHR ''c''" "[]" empty_command, OF _ e1 e2 e3 e4]
  have "snd (ParsePacket ''$qSupported:xyz#dc'' empty_command) =
       \<lparr>cmd = ''qSupported'', data = '':xyz'', checksum = hex_value (CHR ''d'') (CHR ''c'')\<rparr>"
    by simp
  with e1 e2 e3 e5 show ?thesis by simp
qed

subsection \<open>The interrupt byte\<close>

text \<open>
  Claim C6, as stated, with \<open>$g#6\<close> waiting in the receive buffer for its last
  checksum digit when a lone \<open>\x03\<close> is received: \<open>\x03\<close> is neither the first
  unread byte nor alone in the buffer, yet the interrupt command is dispatched
  and the four buffered bytes are dropped.
\<close>

theorem C6_interrupt_only_byte_counterexample:
  "hd (''$g#6'' @ [Interrupt]) \<noteq> Interrupt
   \<and> length (''$g#6'' @ [Interrupt]) \<noteq> 1
   \<and> ProcessIncomingData log_command [Interrupt] ''$g#6'' [] =
       (True, [''+'', ''$#00''], [], [\<lparr>cmd = [Interrupt], data = [], checksum = 0\<rparr>])"
  by code_simp

text \<open>
  Claim C6, amended. The unframed interrupt is taken exactly when the bytes just
  received are the single byte \<open>\x03\<close>, whatever the receive buffer already
  holds: the interrupt command is dispatched and the whole buffer is cleared,
  bytes buffered earlier included. After any other reception no byte is dropped:
  the packets cut out, followed by the bytes left in the buffer, are the buffer
  with the received bytes appended. Among the packets cut out, one that starts
  with \<open>\x03\<close>, after at most two \<open>+\<close>, is parsed to the interrupt command as well.
\<close>

theorem C6_interrupt_on_single_received_byte:
  "ParsePacket [Interrupt] empty_command = (True, interrupt_command)
   \<and> ProcessIncomingData h [Interrupt] buf s =
       (True, [[Ack], SendPacket (fst (h interrupt_command s))], [], snd (h interrupt_command s))
   \<and> (received \<noteq> [] \<and> received \<noteq> [Interrupt] \<longrightarrow>
        ProcessIncomingData h received buf s =
          (True, fst (handle_packets h (fst (cut_packets (buf @ received))) s),
           snd (cut_packets (buf @ received)),
           snd (handle_packets h (fst (cut_packets (buf @ received))) s))
        \<and> concat (fst (cut_packets (buf @ received))) @ snd (cut_packets (buf @ received))
            = buf @ received)
   \<and> (is_interrupt_packet p \<longrightarrow> ParsePacket p out = (True, interrupt_command))"
proof (intro conjI impI)
  show i: "ParsePacket [Interrupt] empty_command = (True, interrupt_command)"
    by (simp add: ParsePacket_interrupt is_interrupt_packet_def)
  then show "ProcessIncomingData h [Interrupt] buf s =
       (True, [[Ack], SendPacket (fst (h interrupt_command s))], [], snd (h interrupt_command s))"
    by (simp add: ProcessIncomingData_interrupt handle_packet_gate)
next
  assume "received \<noteq> [] \<and> received \<noteq> [Interrupt]"
  then show "ProcessIncomingData h received buf s =
          (True, fst (handle_packets h (fst (cut_packets (buf @ received))) s),
           snd (cut_packets (buf @ received)),
           snd (handle_packets h (fst (cut_packets (buf @ received))) s))"
    by (simp add: ProcessIncomingData_cut_packets)
next
  show "concat (fst (cut_packets (buf @ received))) @ snd (cut_packets (buf @ received)) = buf @ received"
    by (rule cut_packets_concat) simp
next
  assume "is_interrupt_packet p"
  then show "ParsePacket p out = (True, interrupt_command)"
    by (rule ParsePacket_interrupt)
qed

theorem C6_interrupt_on_single_received_byte_witness:
  "''7$m0,10#2a$x'' \<noteq> [] \<and> ''7$m0,10#2a$x'' \<noteq> [Interrupt]
   \<and> ProcessIncomingData log_command ''7$m0,10#2a$x'' ''$g#6'' [] =
       (True, [''+'', ''$#00'', ''+'', ''$#00''], ''$x'',
        [\<lparr>cmd = ''g'', data = [], checksum = 0x67\<rparr>,
         \<lparr>cmd = ''m'', data = ''0,10'', checksum = 0x2a\<rparr>])
   \<and> concat (fst (cut_packets (''$g#6'' @ ''7$m0,10#2a$x''))) @ snd (cut_packets (''$g#6'' @ ''7$m0,10#2a$x''))
       = ''$g#6'' @ ''7$m0,10#2a$x''
   \<and> is_interrupt_packet (CHR ''+'' # Interrupt # ''$g#67'')
   \<and> ParsePacket (CHR ''+'' # Interrupt # ''$g#67'') empty_command = (True, interrupt_command)"
proof -
  have e1: "''7$m0,10#2a$x'' \<noteq> [] \<and> ''7$m0,10#2a$x'' \<noteq> [Interrupt]" by code_simp
  have e2: "cut_packets (''$g#6'' @ ''7$m0,10#2a$x'') = ([''$g#67'', ''$m0,10#2a''], ''$x'')" by code_simp
  have e3: "handle_packets log_command [''$g#67'', ''$m0,10#2a''] [] =
       ([''+'', ''$#00'', ''+'', ''$#00''],
        [\<lparr>cmd = ''g'', data = [], checksum = 0x67\<rparr>,
         \<lparr>cmd = ''m'', data = ''0,10'', checksum = 0x2a\<rparr>])" by code_simp
  have e4: "is_interrupt_packet (CHR ''+'' # Interrupt # ''$g#67'')" by code_simp
  note t = C6_interrupt_on_single_received_byte[of log_command "''$g#6''" "[]" "''7$m0,10#2a$x''"
      "CHR ''+'' # Interrupt # ''$g#67''" empty_command]
  from t e1
  have a: "ProcessIncomingData log_command ''7$m0,10#2a$x'' ''$g#6'' [] =
          (True, fst (handle_packets log_command (fst (cut_packets (''$g#6'' @ ''7$m0,10#2a$x''))) []),
           snd (cut_packets (''$g#6'' @ ''7$m0,10#2a$x'')),
           snd (handle_packets log_command (fst (cut_packets (''$g#6'' @ ''7$m0,10#2a$x''))) []))
        \<and> concat (fst (cut_packets (''$g#6'' @ ''7$m0,10#2a$x''))) @ snd (cut_packets (''$g#6'' @ ''7$m0,10#2a$x''))
            = ''$g#6'' @ ''7$m0,10#2a$x''"
    by blast
  from t e4
  have b: "ParsePacket (CHR ''+'' # Interrupt # ''$g#67'') empty_command = (True, interrupt_command)"
    by blast
  from a e1 e2 e3 e4 b show ?thesis by simp
qed

section \<open>Properties of the register encoding\<close>

lemma length_hex_digits_le: "n < 16 ^ k \<Longrightarrow> 0 < k \<Longrightarrow> length (hex_digits n) \<le> k"
proof (induction k arbitrary: n)
  case 0 then show ?case by simp
next
  case (Suc k)
  show ?case
  proof (cases "n < 16")
    case True then show ?thesis by (simp add: hex_digits.simps[of n])
  next
    case False
    with Suc.prems have k: "0 < k" by (cases k) auto
    from Suc.prems have "n div 16 < 16 ^ k" by (simp add: less_mult_imp_div_less mult.commute)
    from Suc.IH[OF this k] False show ?thesis by (simp add: hex_digits.simps[of n])
  qed
qed

lemma length_pad_left: "length s \<le> w \<Longrightarrow> length (pad_left w c s) = w"
  by (simp add: pad_left_def)

lemma length_u32_to_padded_hex [simp]: "length (u32_to_padded_hex v) = 8"
proof -
  have "unat v < 2 ^ 32" using unsigned_less[of v, where ?'a = nat] by simp
  then have "unat v < 16 ^ 8" by simp
  then have "length (hex_digits (unat v)) \<le> 8" by (rule length_hex_digits_le) simp
  then show ?thesis by (simp add: u32_to_padded_hex_def length_pad_left)
qed

lemma length_u64_to_padded_hex [simp]: "length (u64_to_padded_hex v) = 16"
proof -
  have "unat v < 2 ^ 64" using unsigned_less[of v, where ?'a = nat] by simp
  then have "unat v < 16 ^ 16" by simp
  then have "length (hex_digits (unat v)) \<le> 16" by (rule length_hex_digits_le) simp
  then show ?thesis by (simp add: u64_to_padded_hex_def length_pad_left)
qed

lemma length_first_guest_pc [simp]: "length (first_guest_pc fs) = 8"
  by (induction fs) simp_all

lemma ReadRegister_valid_thread:
  assumes "i < 71"
  shows "\<exists>s c'. ReadRegister (Some t) (of_nat i) c = Inr (s, c') \<and> length s = register_width i
           \<and> cur_thread_info c' = cur_thread_info c"
proof -
  from assms have u: "unat (of_nat i :: 32 word) = i" by (simp add: unat_of_nat)
  show ?thesis
    using assms
    by (simp add: ReadRegister_def word_unat_eq_iff word_less_nat_alt u register_width_def
        cur_thread_info_def thread_info_def)
qed

lemma read_registers_loop_valid_thread:
  assumes "\<forall>i\<in>set is. i < 71" and "cur_thread_info c = Some t"
  shows "\<exists>s c'. read_registers_loop is acc c = Inr (acc @ s, c')
           \<and> length s = sum_list (map register_width is)"
  using assms
proof (induction "is" arbitrary: acc c)
  case Nil
  then show ?case by simp
next
  case (Cons i rest)
  from Cons.prems have i: "i < 71" by simp
  from ReadRegister_valid_thread[OF i, of t c] obtain s c' where
    r: "ReadRegister (Some t) (of_nat i) c = Inr (s, c')" and l: "length s = register_width i"
    and k: "cur_thread_info c' = cur_thread_info c" by blast
  from Cons.prems k have "\<forall>i\<in>set rest. i < 71" "cur_thread_info c' = Some t" by simp_all
  from Cons.IH[OF this, of "acc @ s"] obtain s' c'' where
    "read_registers_loop rest (acc @ s) c' = Inr ((acc @ s) @ s', c'')"
    "length s' = sum_list (map register_width rest)" by blast
  with r l Cons.prems(2) show ?case by simp
qed

lemma sum_register_width: "sum_list (map register_width [0..<71]) = 824"
  by code_simp

text \<open>
  Claim C7. On a valid current thread the command \<open>g\<close> is answered with the
  encodings of the registers 0 to 70 one after the other, each at its fixed
  width, and the reply is exactly \<open>32*8 + 32*16 + 7*8 = 824\<close> characters long.
\<close>

theorem C7_read_registers_length:
  assumes "cmd c = ''g''" and "cur_thread_info (cache s) = Some t"
  shows "\<exists>reply c'. ReadRegisters (cache s) = Inr (reply, c')
           \<and> HandleGDBCommand env c s = Returns (reply, s\<lparr>cache := c'\<rparr>)
           \<and> length reply = 32 * 8 + 32 * 16 + 7 * 8 \<and> length reply = 824"
proof -
  have "\<forall>i\<in>set [0..<71]. i < 71" by simp
  from read_registers_loop_valid_thread[OF this assms(2), of "[]"] obtain reply c' where
    r: "read_registers_loop [0..<71] [] (cache s) = Inr (reply, c')"
    and l: "length reply = sum_list (map register_width [0..<71])" by auto
  from r have "ReadRegisters (cache s) = Inr (reply, c')" by (simp add: ReadRegisters_def)
  moreover from this assms(1) have "HandleGDBCommand env c s = Returns (reply, s\<lparr>cache := c'\<rparr>)"
    by (simp add: HandleGDBCommand_def Let_def)
  moreover from l have "length reply = 824" by (simp add: sum_register_width)
  ultimately show ?thesis by simp
qed

theorem C7_read_registers_length_witness:
  "cmd \<lparr>cmd = ''g'', data = [], checksum = 0x67\<rparr> = ''g''
   \<and> cur_thread_info (cache (initial_stub\<lparr>cache := initial_cache
         \<lparr>thread_debug_infos := [example_thread 9, example_thread 7], cur_thread_id := 7\<rparr>\<rparr>))
       = Some (example_thread 7)
   \<and> (\<exists>reply c'.
         HandleGDBCommand example_environment \<lparr>cmd = ''g'', data = [], checksum = 0x67\<rparr>
           (initial_stub\<lparr>cache := initial_cache
              \<lparr>thread_debug_infos := [example_thread 9, example_thread 7], cur_thread_id := 7\<rparr>\<rparr>)
         = Returns (reply, initial_stub\<lparr>cache := c'\<rparr>)
         \<and> length reply = 824)"
proof -
  let ?s = "initial_stub\<lparr>cache := initial_cache
         \<lparr>thread_debug_infos := [example_thread 9, example_thread 7], cur_thread_id := 7\<rparr>\<rparr>"
  let ?c = "\<lparr>cmd = ''g'', data = [], checksum = 0x67 :: 8 word\<rparr>"
  have g: "cmd ?c = ''g''" by simp
  have v: "cur_thread_info (cache ?s) = Some (example_thread 7)"
    by (simp add: cur_thread_info_def thread_info_def initial_cache_def example_thread_def)
  from C7_read_registers_length[OF g v, of example_environment] obtain reply c' where
    "HandleGDBCommand example_environment ?c ?s = Returns (reply, ?s\<lparr>cache := c'\<rparr>)"
    "length reply = 824" by blast
  then have "\<exists>reply c'. HandleGDBCommand example_environment ?c ?s
                 = Returns (reply, initial_stub\<lparr>cache := c'\<rparr>) \<and> length reply = 824"
    by auto
  with g v show ?thesis by (intro conjI)
qed

section \<open>Properties of the cache refresh\<close>

lemma UpdateCache_running:
  "execution_state processor = kRunning \<Longrightarrow>
   UpdateCache processor c = Inr (c\<lparr>is_stopped := False, notify_stopped := False\<rparr>)"
  by (simp add: UpdateCache_def)

lemma UpdateCache_stopped:
  "execution_state processor \<noteq> kRunning \<Longrightarrow>
   UpdateCache processor c =
     (case QueryThreadDebugInfos processor of
        [] \<Rightarrow> Inl IndexOutOfRange
      | t # ts \<Rightarrow>
          Inr (c\<lparr>is_stopped := True, notify_stopped := True,
                 modules := kernel_modules processor,
                 thread_debug_infos := QueryThreadDebugInfos processor,
                 cur_thread_id := thread_id t\<rparr>))"
  by (simp add: UpdateCache_def split: list.splits)

text \<open>
  Claim C8, as stated, with thread 7 current and the paused Processor listing
  the threads 9 and 7: thread 7 is in the fresh listing, yet the refresh makes
  thread 9 current.
\<close>

theorem C8_valid_thread_kept_counterexample:
  "thread_info (initial_cache\<lparr>thread_debug_infos := QueryThreadDebugInfos example_processor\<rparr>) 7
     = Some (example_thread 7)
   \<and> map_sum id cur_thread_id (UpdateCache example_processor (initial_cache\<lparr>cur_thread_id := 7\<rparr>))
     = Inr 9"
  by (simp add: UpdateCache_def example_processor_def initial_cache_def example_thread_def
      thread_info_def)

text \<open>
  Claim C8, amended. Every cache refresh performed while the Processor is not
  running, with a thread listing that is not empty, sets \<open>cur_thread_id\<close> to the
  first thread of the fresh listing, whether or not it named a thread of the
  listing before; only a refresh that finds the Processor running leaves it.
\<close>

theorem C8_refresh_sets_first_thread:
  "(execution_state processor \<noteq> kRunning \<and> QueryThreadDebugInfos processor = t # ts \<longrightarrow>
      (\<exists>c'. UpdateCache processor c = Inr c' \<and> cur_thread_id c' = thread_id t
         \<and> thread_debug_infos c' = t # ts))
   \<and> (execution_state processor = kRunning \<longrightarrow>
      (\<exists>c'. UpdateCache processor c = Inr c' \<and> cur_thread_id c' = cur_thread_id c
         \<and> thread_debug_infos c' = thread_debug_infos c))"
  by (simp add: UpdateCache_running UpdateCache_stopped)

theorem C8_refresh_sets_first_thread_witness:
  "execution_state example_processor \<noteq> kRunning
   \<and> QueryThreadDebugInfos example_processor = [example_thread 9, example_thread 7]
   \<and> (\<exists>c'. UpdateCache example_processor (initial_cache\<lparr>cur_thread_id := 7\<rparr>) = Inr c'
         \<and> cur_thread_id c' = thread_id (example_thread 9)
         \<and> thread_debug_infos c' = [example_thread 9, example_thread 7])
   \<and> execution_state (example_processor\<lparr>execution_state := kRunning\<rparr>) = kRunning
   \<and> (\<exists>c'. UpdateCache (example_processor\<lparr>execution_state := kRunning\<rparr>)
               (initial_cache\<lparr>cur_thread_id := 7\<rparr>) = Inr c'
         \<and> cur_thread_id c' = 7)"
proof -
  have a: "execution_state example_processor \<noteq> kRunning"
    and b: "QueryThreadDebugInfos example_processor = [example_thread 9, example_thread 7]"
    by (simp_all add: example_processor_def)
  have r: "execution_state (example_processor\<lparr>execution_state := kRunning\<rparr>) = kRunning" by simp
  from C8_refresh_sets_first_thread[of example_processor "example_thread 9" "[example_thread 7]"
      "initial_cache\<lparr>cur_thread_id := 7\<rparr>"] a b
  have s: "\<exists>c'. UpdateCache example_processor (initial_cache\<lparr>cur_thread_id := 7\<rparr>) = Inr c'
         \<and> cur_thread_id c' = thread_id (example_thread 9)
         \<and> thread_debug_infos c' = [example_thread 9, example_thread 7]" by blast
  from C8_refresh_sets_first_thread[of "example_processor\<lparr>execution_state := kRunning\<rparr>" _ _
      "initial_cache\<lparr>cur_thread_id := 7\<rparr>"] r
  have k: "\<exists>c'. UpdateCache (example_processor\<lparr>execution_state := kRunning\<rparr>)
               (initial_cache\<lparr>cur_thread_id := 7\<rparr>) = Inr c'
         \<and> cur_thread_id c' = 7" by auto
  from a b s r k show ?thesis by blast
qed

text \<open>
  Claim C10. A refresh that finds the Processor not running indexes the first
  element of the thread listing just queried, whatever the cache held: with an
  empty listing the access is out of range, and with a listing that is not empty
  the refresh completes, the current thread being the first of the listing.
\<close>

theorem C10_refresh_indexes_first_thread:
  "execution_state processor \<noteq> kRunning \<longrightarrow>
     ((UpdateCache processor c = Inl IndexOutOfRange) = (QueryThreadDebugInfos processor = []))
     \<and> (QueryThreadDebugInfos processor \<noteq> [] \<longrightarrow>
          (\<exists>c'. UpdateCache processor c = Inr c'
             \<and> cur_thread_id c' = thread_id (QueryThreadDebugInfos processor ! 0)))"
  by (auto simp add: UpdateCache_stopped split: list.splits)

theorem C10_refresh_indexes_first_thread_witness:
  "execution_state example_processor \<noteq> kRunning
   \<and> QueryThreadDebugInfos example_processor \<noteq> []
   \<and> UpdateCache example_processor initial_cache \<noteq> Inl IndexOutOfRange
   \<and> (\<exists>c'. UpdateCache example_processor initial_cache = Inr c'
         \<and> cur_thread_id c' = thread_id (QueryThreadDebugInfos example_processor ! 0))
   \<and> execution_state (example_processor\<lparr>QueryThreadDebugInfos := []\<rparr>) \<noteq> kRunning
   \<and> UpdateCache (example_processor\<lparr>QueryThreadDebugInfos := []\<rparr>) initial_cache
       = Inl IndexOutOfRange"
proof -
  have a: "execution_state example_processor \<noteq> kRunning"
    and b: "QueryThreadDebugInfos example_processor \<noteq> []"
    and d: "execution_state (example_processor\<lparr>QueryThreadDebugInfos := []\<rparr>) \<noteq> kRunning"
    by (simp_all add: example_processor_def)
  from C10_refresh_indexes_first_thread[of example_processor initial_cache] a b
  have s: "UpdateCache example_processor initial_cache \<noteq> Inl IndexOutOfRange
     \<and> (\<exists>c'. UpdateCache example_processor initial_cache = Inr c'
         \<and> cur_thread_id c' = thread_id (QueryThreadDebugInfos example_processor ! 0))"
    by blast
  from C10_refresh_indexes_first_thread[of "example_processor\<lparr>QueryThreadDebugInfos := []\<rparr>"
      initial_cache] d
  have e: "UpdateCache (example_processor\<lparr>QueryThreadDebugInfos := []\<rparr>) initial_cache
       = Inl IndexOutOfRange" by simp
  from a b s d e show ?thesis by blast
qed

section \<open>Properties of the stop notification\<close>

subsection \<open>Reads of register 64\<close>










lemma sum_register_width_64: "sum_list (map register_width [0..<64]) = 768"
  by code_simp



subsection \<open>What the commands do to the cache\<close>














subsection \<open>One stop reply and one read of the breakpoint address\<close>










lemma guest_address_not_absent: "(ucast (guest :: 32 word) :: 64 word) \<noteq> - 1"
proof
  assume "(ucast guest :: 64 word) = - 1"
  then have "bit (ucast guest :: 64 word) 40" by simp
  then show False by (auto simp add: bit_ucast_iff dest: bit_imp_le_length)
qed






section \<open>Properties of the breakpoint registry\<close>

lemma collides_iff:
  "collides m bp hosts \<longleftrightarrow>
     (\<exists>kvp\<in>set m. fst kvp = guest_address bp \<or> shares_host hosts (snd kvp))"
  by (induction m) (auto simp add: shares_host_def)

lemma erase_breakpoint_filter:
  "distinct (map bp_handle bs) \<Longrightarrow>
   erase_breakpoint h bs = filter (\<lambda>b. bp_handle b \<noteq> h) bs"
proof (induction bs)
  case Nil
  then show ?case by simp
next
  case (Cons b bs)
  show ?case
  proof (cases "bp_handle b = h")
    case True
    with Cons.prems have "\<forall>x\<in>set bs. bp_handle x \<noteq> h" by (auto simp add: image_iff)
    then have "filter (\<lambda>b. bp_handle b \<noteq> h) bs = bs" by (simp add: filter_id_conv)
    with True show ?thesis by simp
  next
    case False
    with Cons show ?thesis by simp
  qed
qed

lemma registry_inv_initial: "registry_inv initial_stub"
  by (simp add: registry_inv_def initial_stub_def initial_cache_def)

lemma registry_inv_Create:
  assumes "registry_inv s"
  shows "registry_inv (snd (CreateCodeBreakpoint addr hosts s))"
proof -
  let ?bs = "all_breakpoints (breakpoints (cache s))"
  let ?m = "code_breakpoints_by_guest_address (breakpoints (cache s))"
  let ?bp = "\<lparr>bp_handle = next_handle s, bp_address = addr, bp_host_addresses = hosts\<rparr>"
  from assms have d1: "distinct (map bp_handle ?bs)"
    and lt: "\<forall>b\<in>set ?bs. bp_handle b < next_handle s"
    and d2: "distinct (map guest_address ?bs)"
    and dj: "\<forall>b1\<in>set ?bs. \<forall>b2\<in>set ?bs.
               bp_handle b1 \<noteq> bp_handle b2 \<longrightarrow> \<not> shares_host (bp_host_addresses b1) b2"
    and d3: "distinct (map fst ?m)"
    and sm: "set ?m = (\<lambda>b. (guest_address b, b)) ` set ?bs"
    by (simp_all add: registry_inv_def Let_def)
  show ?thesis
  proof (cases "collides ?m ?bp hosts")
    case True
    with assms show ?thesis
      by (auto simp add: CreateCodeBreakpoint_def Let_def registry_inv_def)
  next
    case False
    with sm have ng: "\<forall>b\<in>set ?bs. guest_address b \<noteq> guest_address ?bp"
      and nh: "\<forall>b\<in>set ?bs. \<not> shares_host hosts b"
      by (auto simp add: collides_iff)
    from ng sm have nk: "\<not> list_ex (\<lambda>e. fst e = guest_address ?bp) ?m"
      by (auto simp add: list_ex_iff)
    have sym: "\<forall>b\<in>set ?bs. \<not> shares_host (bp_host_addresses b) ?bp"
      using nh by (auto simp add: shares_host_def ContainsHostAddress_def list_ex_iff)
    have r: "snd (CreateCodeBreakpoint addr hosts s) =
        s\<lparr>next_handle := Suc (next_handle s),
          cache := (cache s)
            \<lparr>breakpoints :=
               \<lparr>all_breakpoints = ?bs @ [?bp],
                code_breakpoints_by_guest_address = ?m @ [(guest_address ?bp, ?bp)]\<rparr>\<rparr>,
          processor_calls := processor_calls s @ [AddBreakpoint (next_handle s)]\<rparr>"
      using False nk by (simp add: CreateCodeBreakpoint_def Let_def map_emplace_def)
    have a1: "distinct (map bp_handle (?bs @ [?bp]))" using d1 lt by auto
    have a2: "\<forall>b\<in>set (?bs @ [?bp]). bp_handle b < Suc (next_handle s)" using lt by auto
    have a3: "distinct (map guest_address (?bs @ [?bp]))" using d2 ng by auto
    have a4: "\<forall>b1\<in>set (?bs @ [?bp]). \<forall>b2\<in>set (?bs @ [?bp]).
               bp_handle b1 \<noteq> bp_handle b2 \<longrightarrow> \<not> shares_host (bp_host_addresses b1) b2"
      using dj nh sym by auto
    have a5: "distinct (map fst (?m @ [(guest_address ?bp, ?bp)]))"
      using d3 sm ng by auto
    have a6: "set (?m @ [(guest_address ?bp, ?bp)]) =
                (\<lambda>b. (guest_address b, b)) ` set (?bs @ [?bp])"
      using sm by auto
    from a1 a2 a3 a4 a5 a6 show ?thesis
      unfolding r registry_inv_def Let_def by simp
  qed
qed

lemma registry_inv_Delete_ptr:
  assumes "registry_inv s" and "bp \<in> set (all_breakpoints (breakpoints (cache s)))"
  shows "registry_inv (DeleteCodeBreakpoint_ptr bp s)"
proof -
  let ?bs = "all_breakpoints (breakpoints (cache s))"
  let ?m = "code_breakpoints_by_guest_address (breakpoints (cache s))"
  let ?bs' = "filter (\<lambda>b. bp_handle b \<noteq> bp_handle bp) ?bs"
  let ?m' = "map_erase (guest_address bp) ?m"
  from assms(1) have d1: "distinct (map bp_handle ?bs)"
    and lt: "\<forall>b\<in>set ?bs. bp_handle b < next_handle s"
    and d2: "distinct (map guest_address ?bs)"
    and dj: "\<forall>b1\<in>set ?bs. \<forall>b2\<in>set ?bs.
               bp_handle b1 \<noteq> bp_handle b2 \<longrightarrow> \<not> shares_host (bp_host_addresses b1) b2"
    and d3: "distinct (map fst ?m)"
    and sm: "set ?m = (\<lambda>b. (guest_address b, b)) ` set ?bs"
    by (simp_all add: registry_inv_def Let_def)
  from assms(2) have ex: "list_ex (\<lambda>b. bp_handle b = bp_handle bp) ?bs"
    by (auto simp add: list_ex_iff)
  have r: "DeleteCodeBreakpoint_ptr bp s =
      s\<lparr>processor_calls := processor_calls s @ [RemoveBreakpoint (bp_handle bp)],
        cache := (cache s)
          \<lparr>breakpoints :=
             \<lparr>all_breakpoints = ?bs', code_breakpoints_by_guest_address = ?m'\<rparr>\<rparr>\<rparr>"
    using ex d1 by (simp add: DeleteCodeBreakpoint_ptr_def Let_def erase_breakpoint_filter)
  have inj_h: "\<And>b. b \<in> set ?bs \<Longrightarrow> bp_handle b = bp_handle bp \<Longrightarrow> b = bp"
    using d1 assms(2) by (meson distinct_map inj_onD)
  have inj_g: "\<And>b. b \<in> set ?bs \<Longrightarrow> guest_address b = guest_address bp \<Longrightarrow> b = bp"
    using d2 assms(2) by (meson distinct_map inj_onD)
  have a1: "distinct (map bp_handle ?bs')" using d1 by (simp add: distinct_map_filter)
  have a2: "\<forall>b\<in>set ?bs'. bp_handle b < next_handle s" using lt by simp
  have a3: "distinct (map guest_address ?bs')" using d2 by (simp add: distinct_map_filter)
  have a4: "\<forall>b1\<in>set ?bs'. \<forall>b2\<in>set ?bs'.
               bp_handle b1 \<noteq> bp_handle b2 \<longrightarrow> \<not> shares_host (bp_host_addresses b1) b2"
    using dj by simp
  have a5: "distinct (map fst ?m')" using d3 by (simp add: map_erase_def distinct_map_filter)
  have a6: "set ?m' = (\<lambda>b. (guest_address b, b)) ` set ?bs'"
  proof (intro set_eqI iffI)
    fix e assume "e \<in> set ?m'"
    then have e: "e \<in> set ?m" and ne: "fst e \<noteq> guest_address bp" by (auto simp add: map_erase_def)
    from e sm obtain b where b: "b \<in> set ?bs" "e = (guest_address b, b)" by auto
    with ne have "bp_handle b \<noteq> bp_handle bp" using inj_h by auto
    with b show "e \<in> (\<lambda>b. (guest_address b, b)) ` set ?bs'" by auto
  next
    fix e assume "e \<in> (\<lambda>b. (guest_address b, b)) ` set ?bs'"
    then obtain b where b: "b \<in> set ?bs" "bp_handle b \<noteq> bp_handle bp" "e = (guest_address b, b)"
      by auto
    then have "guest_address b \<noteq> guest_address bp" using inj_g by auto
    with b sm show "e \<in> set ?m'" by (auto simp add: map_erase_def)
  qed
  from a1 a2 a3 a4 a5 a6 show ?thesis
    unfolding r registry_inv_def Let_def by simp
qed

lemma registry_inv_Delete:
  assumes "registry_inv s"
  shows "registry_inv (DeleteCodeBreakpoint addr s)"
proof (cases "LookupBreakpointAtAddress addr s")
  case None
  with assms show ?thesis by (simp add: DeleteCodeBreakpoint_def)
next
  case (Some bp)
  then have "(ucast addr, bp) \<in> set (code_breakpoints_by_guest_address (breakpoints (cache s)))"
    by (simp add: LookupBreakpointAtAddress_def map_find_def map_of_SomeD)
  with assms have "bp \<in> set (all_breakpoints (breakpoints (cache s)))"
    by (auto simp add: registry_inv_def Let_def)
  from registry_inv_Delete_ptr[OF assms this] Some show ?thesis
    by (simp add: DeleteCodeBreakpoint_def)
qed

lemma registry_inv_remove_all: "registry_inv s \<Longrightarrow> registry_inv (remove_all_breakpoints s)"
  by (simp add: registry_inv_def remove_all_breakpoints_def)

lemma registry_inv_delete_front:
  "registry_inv s \<Longrightarrow> registry_inv (delete_front_breakpoints s)"
proof (induction s rule: delete_front_breakpoints.induct)
  case (1 s)
  show ?case
  proof (cases "all_breakpoints (breakpoints (cache s))")
    case Nil
    with "1.prems" show ?thesis by (simp add: delete_front_breakpoints.simps[of s])
  next
    case (Cons front rest)
    then have "front \<in> set (all_breakpoints (breakpoints (cache s)))" by simp
    from registry_inv_Delete_ptr[OF "1.prems" this]
    have "registry_inv (DeleteCodeBreakpoint_ptr front s)" .
    from "1.IH"[OF Cons this] Cons show ?thesis
      by (simp add: delete_front_breakpoints.simps[of s])
  qed
qed

lemma registry_inv_apply_op: "registry_inv s \<Longrightarrow> registry_inv (apply_op op s)"
  by (cases op)
     (simp_all add: registry_inv_Create registry_inv_Delete registry_inv_remove_all
        registry_inv_delete_front)

lemma registry_inv_run_ops: "registry_inv s \<Longrightarrow> registry_inv (run_ops ops s)"
  by (induction ops arbitrary: s) (simp_all add: registry_inv_apply_op)

lemma hosts_disjoint_from_handles:
  "distinct (map bp_handle bs) \<Longrightarrow>
   \<forall>b1\<in>set bs. \<forall>b2\<in>set bs.
      bp_handle b1 \<noteq> bp_handle b2 \<longrightarrow> \<not> shares_host (bp_host_addresses b1) b2 \<Longrightarrow>
   hosts_disjoint bs"
proof (induction bs)
  case Nil
  then show ?case by simp
next
  case (Cons b bs)
  from Cons.prems(1) have "\<forall>b'\<in>set bs. bp_handle b \<noteq> bp_handle b'" by auto
  with Cons.prems(2) have "\<forall>b'\<in>set bs. \<not> shares_host (bp_host_addresses b) b'" by auto
  with Cons show ?case by (simp add: list_all_iff)
qed

lemma registry_inv_ok: "registry_inv s \<Longrightarrow> registry_ok s"
  by (simp add: registry_inv_def registry_ok_def Let_def hosts_disjoint_from_handles)

lemma Create_collision_iff:
  assumes "registry_inv s"
  shows "fst (CreateCodeBreakpoint addr hosts s) \<longleftrightarrow>
           \<not> (\<exists>b\<in>set (all_breakpoints (breakpoints (cache s))). collides_with addr hosts b)"
proof -
  from assms have
    sm: "set (code_breakpoints_by_guest_address (breakpoints (cache s))) =
           (\<lambda>b. (guest_address b, b)) ` set (all_breakpoints (breakpoints (cache s)))"
    by (simp add: registry_inv_def Let_def)
  then show ?thesis
    by (auto simp add: CreateCodeBreakpoint_def Let_def collides_iff collides_with_def
        guest_address_def)
qed

lemma Create_refused:
  "\<not> fst (CreateCodeBreakpoint addr hosts s) \<Longrightarrow>
   snd (CreateCodeBreakpoint addr hosts s) = s\<lparr>next_handle := Suc (next_handle s)\<rparr>"
  by (simp add: CreateCodeBreakpoint_def Let_def split: if_splits)

lemma Create_accepted:
  "fst (CreateCodeBreakpoint addr hosts s) \<Longrightarrow>
   all_breakpoints (breakpoints (cache (snd (CreateCodeBreakpoint addr hosts s)))) =
     all_breakpoints (breakpoints (cache s))
     @ [\<lparr>bp_handle = next_handle s, bp_address = addr, bp_host_addresses = hosts\<rparr>]"
  by (simp add: CreateCodeBreakpoint_def Let_def split: if_splits)

text \<open>
  Claim C1. After any sequence of Insert, Remove and RemoveAll operations (in
  either of its two forms) on a new stub, the guest addresses of the registered
  breakpoints are pairwise distinct and no host address belongs to two of them.
  In such a state an Insert whose breakpoint would collide with a registered one,
  on the guest address or on a host address, returns \<open>false\<close> and leaves the cache,
  with the registry and every breakpoint in it, and the Processor alone; an
  Insert that collides with none returns \<open>true\<close> and appends the new breakpoint.
\<close>

theorem C1_registry_invariants:
  "(let s = run_ops ops initial_stub;
        registered = all_breakpoints (breakpoints (cache s));
        result = CreateCodeBreakpoint addr hosts s
    in registry_ok s
       \<and> ((\<exists>b\<in>set registered. collides_with addr hosts b) \<longrightarrow>
             fst result = False \<and> cache (snd result) = cache s
             \<and> processor_calls (snd result) = processor_calls s)
       \<and> (\<not> (\<exists>b\<in>set registered. collides_with addr hosts b) \<longrightarrow>
             fst result = True
             \<and> all_breakpoints (breakpoints (cache (snd result))) =
                 registered @ [\<lparr>bp_handle = next_handle s, bp_address = addr,
                                bp_host_addresses = hosts\<rparr>]
             \<and> registry_ok (snd result)))"
proof -
  let ?s = "run_ops ops initial_stub"
  have inv: "registry_inv ?s" by (rule registry_inv_run_ops[OF registry_inv_initial])
  have ok: "registry_ok ?s" by (rule registry_inv_ok[OF inv])
  have ok': "registry_ok (snd (CreateCodeBreakpoint addr hosts ?s))"
    by (rule registry_inv_ok[OF registry_inv_Create[OF inv]])
  note iff = Create_collision_iff[OF inv, of addr hosts]
  have refused: "(\<exists>b\<in>set (all_breakpoints (breakpoints (cache ?s))). collides_with addr hosts b) \<longrightarrow>
      fst (CreateCodeBreakpoint addr hosts ?s) = False
      \<and> cache (snd (CreateCodeBreakpoint addr hosts ?s)) = cache ?s
      \<and> processor_calls (snd (CreateCodeBreakpoint addr hosts ?s)) = processor_calls ?s"
  proof
    assume "\<exists>b\<in>set (all_breakpoints (breakpoints (cache ?s))). collides_with addr hosts b"
    with iff have n: "\<not> fst (CreateCodeBreakpoint addr hosts ?s)" by simp
    from Create_refused[OF n] n show "fst (CreateCodeBreakpoint addr hosts ?s) = False
      \<and> cache (snd (CreateCodeBreakpoint addr hosts ?s)) = cache ?s
      \<and> processor_calls (snd (CreateCodeBreakpoint addr hosts ?s)) = processor_calls ?s"
      by simp
  qed
  have accepted: "\<not> (\<exists>b\<in>set (all_breakpoints (breakpoints (cache ?s))). collides_with addr hosts b) \<longrightarrow>
      fst (CreateCodeBreakpoint addr hosts ?s) = True
      \<and> all_breakpoints (breakpoints (cache (snd (CreateCodeBreakpoint addr hosts ?s)))) =
          all_breakpoints (breakpoints (cache ?s))
          @ [\<lparr>bp_handle = next_handle ?s, bp_address = addr, bp_host_addresses = hosts\<rparr>]
      \<and> registry_ok (snd (CreateCodeBreakpoint addr hosts ?s))"
  proof
    assume "\<not> (\<exists>b\<in>set (all_breakpoints (breakpoints (cache ?s))). collides_with addr hosts b)"
    with iff have y: "fst (CreateCodeBreakpoint addr hosts ?s)" by simp
    from Create_accepted[OF y] y ok' show "fst (CreateCodeBreakpoint addr hosts ?s) = True
      \<and> all_breakpoints (breakpoints (cache (snd (CreateCodeBreakpoint addr hosts ?s)))) =
          all_breakpoints (breakpoints (cache ?s))
          @ [\<lparr>bp_handle = next_handle ?s, bp_address = addr, bp_host_addresses = hosts\<rparr>]
      \<and> registry_ok (snd (CreateCodeBreakpoint addr hosts ?s))"
      by simp
  qed
  from ok refused accepted show ?thesis unfolding Let_def by (intro conjI)
qed

text \<open>
  The theorem at work. Breakpoints at \<open>0x100\<close> and \<open>0x200\<close> are inserted, the
  second is removed and one at \<open>0x300\<close> takes over its host address. An Insert at
  \<open>0x100000100\<close> collides with the first on the guest address, one at \<open>0x400\<close> on
  the host address \<open>0x7004\<close>: both are refused and the cache is as before. An
  Insert at \<open>0x400\<close> on a free host address is accepted.
\<close>

theorem C1_registry_invariants_witness:
  "registry_ok (run_ops example_ops initial_stub)
   \<and> map bp_address (all_breakpoints (breakpoints (cache (run_ops example_ops initial_stub))))
       = [0x100, 0x300]
   \<and> list_ex (collides_with 0x100000100 [0x9000])
        (all_breakpoints (breakpoints (cache (run_ops example_ops initial_stub))))
   \<and> fst (CreateCodeBreakpoint 0x100000100 [0x9000] (run_ops example_ops initial_stub)) = False
   \<and> cache (snd (CreateCodeBreakpoint 0x100000100 [0x9000] (run_ops example_ops initial_stub)))
       = cache (run_ops example_ops initial_stub)
   \<and> list_ex (collides_with 0x400 [0x9000, 0x7004])
        (all_breakpoints (breakpoints (cache (run_ops example_ops initial_stub))))
   \<and> fst (CreateCodeBreakpoint 0x400 [0x9000, 0x7004] (run_ops example_ops initial_stub)) = False
   \<and> list_all (\<lambda>b. \<not> collides_with 0x400 [0x9000] b)
        (all_breakpoints (breakpoints (cache (run_ops example_ops initial_stub))))
   \<and> fst (CreateCodeBreakpoint 0x400 [0x9000] (run_ops example_ops initial_stub)) = True
   \<and> registry_ok (snd (CreateCodeBreakpoint 0x400 [0x9000] (run_ops example_ops initial_stub)))"
proof -
  let ?s = "run_ops example_ops initial_stub"
  have m: "map bp_address (all_breakpoints (breakpoints (cache ?s))) = [0x100, 0x300]"
    by code_simp
  have c1: "list_ex (collides_with 0x100000100 [0x9000]) (all_breakpoints (breakpoints (cache ?s)))"
    by code_simp
  have c2: "list_ex (collides_with 0x400 [0x9000, 0x7004]) (all_breakpoints (breakpoints (cache ?s)))"
    by code_simp
  have c3: "list_all (\<lambda>b. \<not> collides_with 0x400 [0x9000] b) (all_breakpoints (breakpoints (cache ?s)))"
    by code_simp
  from c1 have e1: "\<exists>b\<in>set (all_breakpoints (breakpoints (cache ?s))). collides_with 0x100000100 [0x9000] b"
    by (simp only: list_ex_iff)
  from c2 have e2: "\<exists>b\<in>set (all_breakpoints (breakpoints (cache ?s))). collides_with 0x400 [0x9000, 0x7004] b"
    by (simp only: list_ex_iff)
  from c3 have e3: "\<not> (\<exists>b\<in>set (all_breakpoints (breakpoints (cache ?s))). collides_with 0x400 [0x9000] b)"
    by (simp only: list_all_iff) blast
  from C1_registry_invariants[of example_ops "0x100000100" "[0x9000]"] e1
  have r1: "registry_ok ?s"
    "fst (CreateCodeBreakpoint 0x100000100 [0x9000] ?s) = False"
    "cache (snd (CreateCodeBreakpoint 0x100000100 [0x9000] ?s)) = cache ?s"
    unfolding Let_def by blast+
  from C1_registry_invariants[of example_ops "0x400" "[0x9000, 0x7004]"] e2
  have r2: "fst (CreateCodeBreakpoint 0x400 [0x9000, 0x7004] ?s) = False"
    unfolding Let_def by blast
  from C1_registry_invariants[of example_ops "0x400" "[0x9000]"] e3
  have r3: "fst (CreateCodeBreakpoint 0x400 [0x9000] ?s) = True"
    "registry_ok (snd (CreateCodeBreakpoint 0x400 [0x9000] ?s))"
    unfolding Let_def by blast+
  from r1 m c1 r2 c2 c3 r3 show ?thesis by (intro conjI)
qed

section \<open>Properties of the dispatcher\<close>

lemma HandleGDBCommand_unknown:
  "cmd u \<notin> set command_names \<Longrightarrow> HandleGDBCommand env u s = Returns ([], s)"
  by (simp add: HandleGDBCommand_def command_names_def Let_def)

lemma HandleGDBCommand_m:
  "cmd c = ''m'' \<Longrightarrow>
   HandleGDBCommand env c s =
     (case ReadMemory (env_memory env) (data c) of
        Inl e \<Rightarrow> Undefined e
      | Inr reply \<Rightarrow> Returns (reply, s))"
  by (simp add: HandleGDBCommand_def Let_def)

lemma ReadMemory_zero_length:
  "memory_range d = Some (addr, 0) \<Longrightarrow> LookupHeap mem addr = Some heap \<Longrightarrow>
   QueryProtect mem heap addr = Some protect \<Longrightarrow>
   protect AND kMemoryProtectRead mem = kMemoryProtectRead mem \<Longrightarrow>
   ReadMemory mem d = Inr []"
  by (simp add: ReadMemory_def)

lemma SendPacket_empty: "SendPacket [] = ''$#00''"
  by code_simp

text \<open>
  Claim C9. A memory read \<open>m addr,len\<close> with \<open>len = 0\<close> at an address in a mapped,
  readable heap is answered with the empty string, as a command that is not in
  the command map is; on the wire both replies are the packet \<open>$#00\<close>.
\<close>

theorem C9_empty_read_like_unsupported:
  assumes "cmd c = ''m''"
    and "memory_range (data c) = Some (addr, 0)"
    and "LookupHeap (env_memory env) addr = Some heap"
    and "QueryProtect (env_memory env) heap addr = Some protect"
    and "protect AND kMemoryProtectRead (env_memory env) = kMemoryProtectRead (env_memory env)"
    and "cmd u \<notin> set command_names"
  shows "HandleGDBCommand env c s = Returns ([], s)
         \<and> HandleGDBCommand env u s = Returns ([], s)
         \<and> SendPacket [] = ''$#00''"
proof -
  from ReadMemory_zero_length[OF assms(2-5)] have "ReadMemory (env_memory env) (data c) = Inr []" .
  with assms(1) have "HandleGDBCommand env c s = Returns ([], s)"
    by (simp add: HandleGDBCommand_m)
  with HandleGDBCommand_unknown[OF assms(6)] SendPacket_empty show ?thesis by simp
qed

theorem C9_empty_read_like_unsupported_witness:
  "cmd \<lparr>cmd = ''m'', data = ''1000,0'', checksum = 0x8a\<rparr> = ''m''
   \<and> memory_range (data \<lparr>cmd = ''m'', data = ''1000,0'', checksum = 0x8a\<rparr>) = Some (0x1000, 0)
   \<and> LookupHeap (env_memory example_environment) 0x1000 = Some 0
   \<and> QueryProtect (env_memory example_environment) 0 0x1000 = Some 3
   \<and> 3 AND kMemoryProtectRead (env_memory example_environment)
       = kMemoryProtectRead (env_memory example_environment)
   \<and> cmd \<lparr>cmd = ''X'', data = ''1000,0:'', checksum = 0xaf\<rparr> \<notin> set command_names
   \<and> HandleGDBCommand example_environment \<lparr>cmd = ''m'', data = ''1000,0'', checksum = 0x8a\<rparr>
        initial_stub = Returns ([], initial_stub)
   \<and> HandleGDBCommand example_environment \<lparr>cmd = ''X'', data = ''1000,0:'', checksum = 0xaf\<rparr>
        initial_stub = Returns ([], initial_stub)
   \<and> SendPacket [] = ''$#00''"
proof -
  let ?c = "\<lparr>cmd = ''m'', data = ''1000,0'', checksum = 0x8a :: 8 word\<rparr>"
  let ?u = "\<lparr>cmd = ''X'', data = ''1000,0:'', checksum = 0xaf :: 8 word\<rparr>"
  have h1: "cmd ?c = ''m''" by simp
  have h2: "memory_range (data ?c) = Some (0x1000, 0)" by code_simp
  have h3: "LookupHeap (env_memory example_environment) 0x1000 = Some 0"
    by (simp add: example_environment_def)
  have h4: "QueryProtect (env_memory example_environment) 0 0x1000 = Some 3"
    by (simp add: example_environment_def)
  have h5: "3 AND kMemoryProtectRead (env_memory example_environment)
       = kMemoryProtectRead (env_memory example_environment)"
    by (simp add: example_environment_def)
  have h6: "cmd ?u \<notin> set command_names" by (simp add: command_names_def)
  from C9_empty_read_like_unsupported[OF h1 h2 h3 h4 h5 h6, of initial_stub]
  have r: "HandleGDBCommand example_environment ?c initial_stub = Returns ([], initial_stub)
         \<and> HandleGDBCommand example_environment ?u initial_stub = Returns ([], initial_stub)
         \<and> SendPacket [] = ''$#00''" .
  from h1 h2 h3 h4 h5 h6 r show ?thesis by (intro conjI) simp_all
qed

end
